theory Spec2Isabelle
  imports Main "HOL-Library.Word" "HOL-Library.Sublist"
begin

section \<open>Data of the relay (main.go)\<close>

type_synonym byte = "8 word"
type_synonym uint64 = "64 word"

text \<open>
  A Go \<^verbatim>\<open>error\<close> value. The code only ever compares an error with the sentinel
  \<^verbatim>\<open>io.EOF\<close> and renders it with \<^verbatim>\<open>%s\<close>; every other error is a value with
  its text. \<open>Failure ''EOF''\<close> is an error that merely prints like the sentinel.
\<close>

datatype error = EOF | Failure string

fun Error :: "error \<Rightarrow> string" where
  "Error EOF = ''EOF''"
| "Error (Failure s) = s"

text \<open>
  \<^verbatim>\<open>*net.TCPAddr\<close> is used only through \<^verbatim>\<open>String()\<close>, so an address is
  modelled by the text that method renders.
\<close>

datatype TCPAddr = TCPAddr (addr_String: string)

text \<open>
  A connection (\<^verbatim>\<open>io.ReadWriteCloser\<close>): the identity of the object, which the
  comparison \<^verbatim>\<open>src == p.localConn\<close> looks at, and the address of its peer
  (\<^verbatim>\<open>RemoteAddr()\<close>).
\<close>

record conn =
  conn_ptr :: nat
  RemoteAddr :: TCPAddr

text \<open>
  \<^verbatim>\<open>type Proxy struct\<close>. The field \<^verbatim>\<open>stopSignal\<close> is an unbuffered channel: it
  holds no value between a send and a receive, so it has no field here; its hand-over
  is the joint step of \<open>err\<close> and \<open>Start\<close> below. \<^verbatim>\<open>id\<close> is \<open>ident\<close>.
\<close>

record Proxy =
  ident :: uint64
  sentBytes :: uint64
  receivedBytes :: uint64
  localAddr :: TCPAddr
  remoteAddr :: TCPAddr
  localConn :: conn
  remoteConn :: "conn option"
  erred :: bool
  tlsUnwrap :: bool
  tlsAddress :: string

definition New :: "uint64 \<Rightarrow> conn \<Rightarrow> TCPAddr \<Rightarrow> TCPAddr \<Rightarrow> Proxy" where
  "New i lconn laddr raddr =
     \<lparr>ident = i, sentBytes = 0, receivedBytes = 0,
      localAddr = laddr, remoteAddr = raddr,
      localConn = lconn, remoteConn = None,
      erred = False, tlsUnwrap = False, tlsAddress = []\<rparr>"

definition NewTLSUnwrapped :: "uint64 \<Rightarrow> conn \<Rightarrow> TCPAddr \<Rightarrow> TCPAddr \<Rightarrow> string \<Rightarrow> Proxy" where
  "NewTLSUnwrapped i lconn laddr raddr addr =
     (New i lconn laddr raddr)\<lparr>tlsUnwrap := True, tlsAddress := addr\<rparr>"

subsection \<open>Log lines and their text\<close>

text \<open>One constructor for each \<^verbatim>\<open>log.Printf\<close> of the source, with its arguments.\<close>

datatype logline =
    Proxying string string
  | Fatal string error
  | AcceptFailed error
  | RemoteConnectionFailed uint64 error
  | Opened uint64 string string
  | Closed uint64 uint64 uint64
  | Traffic uint64 uint64 uint64
  | Failed uint64 string error
  | ErrorWhileClosing error

definition newline :: char where
  "newline = CHR 0x0A"

definition quote :: char where
  "quote = CHR 0x27"

definition read_failed :: string where
  "read_failed = ''read failed '' @ [quote] @ ''%s'' @ [quote, newline]"

definition write_failed :: string where
  "write_failed = ''write failed '' @ [quote] @ ''%s'' @ [quote, newline]"

definition digit_char :: "nat \<Rightarrow> char" where
  "digit_char d = char_of (48 + d)"

text \<open>The verb \<^verbatim>\<open>%d\<close> on an unsigned number: its decimal digits.\<close>

function fmt_d :: "nat \<Rightarrow> string" where
  "fmt_d n = (if n < 10 then [digit_char n] else fmt_d (n div 10) @ [digit_char (n mod 10)])"
  by pat_completeness auto
termination
  by (relation "measure id") auto

declare fmt_d.simps [simp del]

text \<open>
  \<^verbatim>\<open>Printf\<close> with arguments already rendered: each of the verbs \<^verbatim>\<open>%d\<close>, \<^verbatim>\<open>%s\<close>
  and \<^verbatim>\<open>%v\<close> is replaced by the next argument.
\<close>

fun sprintf :: "string \<Rightarrow> string list \<Rightarrow> string" where
  "sprintf [] args = []"
| "sprintf [c] args = [c]"
| "sprintf (c # d # rest) [] = c # d # rest"
| "sprintf (c # d # rest) (a # args) =
     (if c = CHR ''%'' \<and> (d = CHR ''d'' \<or> d = CHR ''s'' \<or> d = CHR ''v'')
      then a @ sprintf rest args
      else c # sprintf (d # rest) (a # args))"

definition u64 :: "uint64 \<Rightarrow> string" where
  "u64 w = fmt_d (unat w)"

text \<open>The text of a log line, without the date and time the logger puts in front.\<close>

fun render :: "logline \<Rightarrow> string" where
  "render (Proxying l r) = sprintf ''proxying from %v to %v'' [l, r]"
| "render (Fatal s e) = sprintf s [Error e]"
| "render (AcceptFailed e) =
     sprintf (''failed to accept connection '' @ [quote] @ ''%s'' @ [quote]) [Error e]"
| "render (RemoteConnectionFailed i e) =
     sprintf ''[%d] remote connection failed: %s'' [u64 i, Error e]"
| "render (Opened i l r) = sprintf ''[%d] opened %s > %s'' [u64 i, l, r]"
| "render (Closed i s r) =
     sprintf ''[%d] closed (%d bytes sent, %d bytes recieved)'' [u64 i, u64 s, u64 r]"
| "render (Traffic i s r) =
     sprintf ''[%d] %d bytes sent, %d bytes recieved'' [u64 i, u64 s, u64 r]"
| "render (Failed i s e) = sprintf (''[%d] '' @ s) [u64 i, Error e]"
| "render (ErrorWhileClosing e) = sprintf (''error while closing: %s'' @ [newline]) [Error e]"


section \<open>One session as interleaved tasks\<close>

text \<open>
  A session is the task \<^verbatim>\<open>Start\<close>, the two \<^verbatim>\<open>pipe\<close> tasks and the \<^verbatim>\<open>stats\<close>
  task it launches. Each task is a step function over its program point; a step
  performs one statement that touches the shared struct, a connection, the log or a
  channel. What a step does to the outside is appended to the trace. What the outside
  answers (the result of a dial, read, write or close, a tick of the timer) comes with
  the step as its response.
\<close>

datatype dial_target = DialTLS string | DialTCP TCPAddr

datatype event =
    Logged logline
  | Dialed dial_target "error option"
  | ReadFrom conn "byte list" "error option"
  | WrittenTo conn "byte list" nat "error option"
  | ClosedConn conn "error option"
  | StopSignal
  | DoneSignal

datatype resp =
    Step
  | DialResult "error + conn"
  | ReadResult "byte list" "error option"
  | WriteResult nat "error option"
  | CloseResult "error option"
  | Tick

datatype main_pc =
    MStart | MLogFailed error | MLogOpened | MGoPipeLR | MGoPipeRL | MGoStats
  | MWait | MSendDone | MLogClosed | MReturn | MExit

datatype err_pc = ErrCheck string error | ErrLog string error | ErrSend | ErrMark

datatype pipe_pc = PStart | PRead | PWrite nat | PCount nat | InErr err_pc | PReturn

datatype stats_pc = SStart | SSelect | SCompare | SLog | SUpdate | SStop | SReturn

record pipe_task =
  src :: conn
  dst :: conn
  isLocal :: bool
  buff :: "byte list"
  ppc :: pipe_pc

text \<open>\<open>ticker\<close> is the period in seconds of the running timer, \<open>None\<close> when there is none.\<close>

record stats_task =
  ticker :: "nat option"
  prevSent :: uint64
  prevReceived :: uint64
  spc :: stats_pc

text \<open>
  \<open>deferred\<close> is the stack of connections \<^verbatim>\<open>Start\<close> has deferred \<^verbatim>\<open>close\<close> on,
  the last one first.
\<close>

record config =
  proxy :: Proxy
  mpc :: main_pc
  deferred :: "conn list"
  pipeLR :: "pipe_task option"
  pipeRL :: "pipe_task option"
  stats_t :: "stats_task option"
  trace :: "event list"

definition emit :: "event list \<Rightarrow> config \<Rightarrow> config" where
  "emit es c = c\<lparr>trace := trace c @ es\<rparr>"

definition initial :: "Proxy \<Rightarrow> config" where
  "initial p =
     \<lparr>proxy = p, mpc = MStart, deferred = [], pipeLR = None, pipeRL = None,
      stats_t = None, trace = []\<rparr>"

subsection \<open>close\<close>

text \<open>\<^verbatim>\<open>closer.Close()\<close> with the answer \<open>eo\<close>, and the log line when it is an error.\<close>

definition close :: "conn \<Rightarrow> error option \<Rightarrow> event list" where
  "close closer eo =
     ClosedConn closer eo # (case eo of None \<Rightarrow> [] | Some e \<Rightarrow> [Logged (ErrorWhileClosing e)])"

subsection \<open>Proxy.err\<close>

text \<open>
  The result is the next program point of \<^verbatim>\<open>err\<close> (\<open>None\<close>: it has returned) and the
  configuration. The send on \<^verbatim>\<open>p.stopSignal\<close> can only happen together with the
  receive in \<^verbatim>\<open>Start\<close>: the channel has no buffer.
\<close>

fun err :: "err_pc \<Rightarrow> config \<Rightarrow> (err_pc option \<times> config) option" where
  "err (ErrCheck s e) c =
     (if erred (proxy c) then Some (None, c)
      else if e \<noteq> EOF then Some (Some (ErrLog s e), c)
      else Some (Some ErrSend, c))"
| "err (ErrLog s e) c =
     Some (Some ErrSend, emit [Logged (Failed (ident (proxy c)) s e)] c)"
| "err ErrSend c =
     (if mpc c = MWait then Some (Some ErrMark, emit [StopSignal] (c\<lparr>mpc := MSendDone\<rparr>))
      else None)"
| "err ErrMark c = Some (None, c\<lparr>proxy := (proxy c)\<lparr>erred := True\<rparr>\<rparr>)"

subsection \<open>Proxy.pipe\<close>

text \<open>
  \<^verbatim>\<open>Read\<close> answers with the bytes it has put at the front of the buffer and an
  optional error; it cannot give more than the buffer holds. \<^verbatim>\<open>Write\<close> answers with
  the number of bytes it took, at most what it was given, and an error whenever it
  took fewer (the contracts of \<^verbatim>\<open>io.Reader\<close> and \<^verbatim>\<open>io.Writer\<close>); a response
  outside the contract is no step.
\<close>

fun pipe :: "pipe_pc \<Rightarrow> resp \<Rightarrow> pipe_task \<Rightarrow> config \<Rightarrow> (pipe_task \<times> config) option" where
  "pipe PStart Step t c =
     Some (t\<lparr>isLocal := (conn_ptr (src t) = conn_ptr (localConn (proxy c))),
             buff := replicate 0xffff 0, ppc := PRead\<rparr>, c)"
| "pipe PRead (ReadResult chunk eo) t c =
     (if length chunk > length (buff t) then None
      else let t1 = t\<lparr>buff := chunk @ drop (length chunk) (buff t)\<rparr>;
               c1 = emit [ReadFrom (src t) chunk eo] c
           in case eo of
                Some e \<Rightarrow> Some (t1\<lparr>ppc := InErr (ErrCheck read_failed e)\<rparr>, c1)
              | None \<Rightarrow> Some (t1\<lparr>ppc := PWrite (length chunk)\<rparr>, c1))"
| "pipe (PWrite n) (WriteResult m eo) t c =
     (let out = take n (buff t) in
      if m > length out \<or> (eo = None \<and> m < length out) then None
      else let c1 = emit [WrittenTo (dst t) out m eo] c
           in case eo of
                Some e \<Rightarrow> Some (t\<lparr>ppc := InErr (ErrCheck write_failed e)\<rparr>, c1)
              | None \<Rightarrow> Some (t\<lparr>ppc := PCount m\<rparr>, c1))"
| "pipe (PCount n) Step t c =
     (let p = proxy c in
      Some (t\<lparr>ppc := PRead\<rparr>,
            c\<lparr>proxy := (if isLocal t then p\<lparr>sentBytes := sentBytes p + of_nat n\<rparr>
                         else p\<lparr>receivedBytes := receivedBytes p + of_nat n\<rparr>)\<rparr>))"
| "pipe (InErr q) Step t c =
     (case err q c of
        None \<Rightarrow> None
      | Some (None, c1) \<Rightarrow> Some (t\<lparr>ppc := PReturn\<rparr>, c1)
      | Some (Some q1, c1) \<Rightarrow> Some (t\<lparr>ppc := InErr q1\<rparr>, c1))"
| "pipe _ _ t c = None"

subsection \<open>Proxy.stats\<close>

fun stats :: "stats_pc \<Rightarrow> resp \<Rightarrow> stats_task \<Rightarrow> config \<Rightarrow> (stats_task \<times> config) option" where
  "stats SStart Step t c =
     Some (t\<lparr>ticker := Some 30, prevSent := 0, prevReceived := 0, spc := SSelect\<rparr>, c)"
| "stats SSelect Tick t c =
     (if ticker t = None then None else Some (t\<lparr>spc := SCompare\<rparr>, c))"
| "stats SCompare Step t c =
     (if prevSent t \<noteq> sentBytes (proxy c) \<or> prevReceived t \<noteq> receivedBytes (proxy c)
      then Some (t\<lparr>spc := SLog\<rparr>, c)
      else Some (t\<lparr>spc := SSelect\<rparr>, c))"
| "stats SLog Step t c =
     (let p = proxy c in
      Some (t\<lparr>spc := SUpdate\<rparr>,
            emit [Logged (Traffic (ident p) (sentBytes p) (receivedBytes p))] c))"
| "stats SUpdate Step t c =
     Some (t\<lparr>prevSent := sentBytes (proxy c), prevReceived := receivedBytes (proxy c),
             spc := SSelect\<rparr>, c)"
| "stats SStop Step t c = Some (t\<lparr>ticker := None, spc := SReturn\<rparr>, c)"
| "stats _ _ t c = None"

subsection \<open>Proxy.Start\<close>

definition remote_target :: "Proxy \<Rightarrow> dial_target" where
  "remote_target p = (if tlsUnwrap p then DialTLS (tlsAddress p) else DialTCP (remoteAddr p))"

definition new_pipe :: "conn \<Rightarrow> conn \<Rightarrow> pipe_task" where
  "new_pipe s d = \<lparr>src = s, dst = d, isLocal = False, buff = [], ppc = PStart\<rparr>"

definition new_stats :: stats_task where
  "new_stats = \<lparr>ticker = None, prevSent = 0, prevReceived = 0, spc = SStart\<rparr>"

definition after_defer :: "config \<Rightarrow> main_pc" where
  "after_defer c = (if deferred c = [] then MExit else MReturn)"

text \<open>
  The dial gives a new connection object, never the local one. The receive on
  \<^verbatim>\<open>p.stopSignal\<close> (\<open>MWait\<close>) is the joint step in \<open>err\<close>; the send on \<^verbatim>\<open>done\<close>
  (\<open>MSendDone\<close>) is the joint step with \<^verbatim>\<open>stats\<close> waiting in its \<^verbatim>\<open>select\<close>.
\<close>

fun Start :: "main_pc \<Rightarrow> resp \<Rightarrow> config \<Rightarrow> config option" where
  "Start MStart (DialResult res) c =
     (let p = proxy c;
          c1 = c\<lparr>deferred := localConn p # deferred c\<rparr>
      in case res of
           Inl e \<Rightarrow> Some (emit [Dialed (remote_target p) (Some e)] (c1\<lparr>mpc := MLogFailed e\<rparr>))
         | Inr rc \<Rightarrow>
             if conn_ptr rc = conn_ptr (localConn p) then None
             else Some (emit [Dialed (remote_target p) None]
                         (c1\<lparr>proxy := p\<lparr>remoteConn := Some rc\<rparr>,
                             deferred := rc # deferred c1, mpc := MLogOpened\<rparr>)))"
| "Start (MLogFailed e) Step c =
     Some (emit [Logged (RemoteConnectionFailed (ident (proxy c)) e)] (c\<lparr>mpc := MReturn\<rparr>))"
| "Start MLogOpened Step c =
     (let p = proxy c in
      Some (emit [Logged (Opened (ident p) (addr_String (localAddr p)) (addr_String (remoteAddr p)))]
             (c\<lparr>mpc := MGoPipeLR\<rparr>)))"
| "Start MGoPipeLR Step c =
     (case remoteConn (proxy c) of
        None \<Rightarrow> None
      | Some rc \<Rightarrow> Some (c\<lparr>pipeLR := Some (new_pipe (localConn (proxy c)) rc), mpc := MGoPipeRL\<rparr>))"
| "Start MGoPipeRL Step c =
     (case remoteConn (proxy c) of
        None \<Rightarrow> None
      | Some rc \<Rightarrow> Some (c\<lparr>pipeRL := Some (new_pipe rc (localConn (proxy c))), mpc := MGoStats\<rparr>))"
| "Start MGoStats Step c = Some (c\<lparr>stats_t := Some new_stats, mpc := MWait\<rparr>)"
| "Start MSendDone Step c =
     (case stats_t c of
        None \<Rightarrow> None
      | Some t \<Rightarrow>
          if spc t = SSelect
          then Some (emit [DoneSignal] (c\<lparr>stats_t := Some (t\<lparr>spc := SStop\<rparr>), mpc := MLogClosed\<rparr>))
          else None)"
| "Start MLogClosed Step c =
     (let p = proxy c in
      Some (emit [Logged (Closed (ident p) (sentBytes p) (receivedBytes p))] (c\<lparr>mpc := MReturn\<rparr>)))"
| "Start MReturn (CloseResult eo) c =
     (case deferred c of
        [] \<Rightarrow> None
      | closer # rest \<Rightarrow>
          (let c1 = c\<lparr>deferred := rest\<rparr>
           in Some (emit (close closer eo) (c1\<lparr>mpc := after_defer c1\<rparr>))))"
| "Start _ _ c = None"

subsection \<open>Schedules\<close>

datatype task = Main | PipeLR | PipeRL | Stats

type_synonym action = "task \<times> resp"

fun pipe_of :: "task \<Rightarrow> config \<Rightarrow> pipe_task option" where
  "pipe_of PipeLR c = pipeLR c"
| "pipe_of PipeRL c = pipeRL c"
| "pipe_of _ c = None"

fun set_pipe :: "task \<Rightarrow> pipe_task \<Rightarrow> config \<Rightarrow> config" where
  "set_pipe PipeLR t c = c\<lparr>pipeLR := Some t\<rparr>"
| "set_pipe PipeRL t c = c\<lparr>pipeRL := Some t\<rparr>"
| "set_pipe _ t c = c"

fun step :: "action \<Rightarrow> config \<Rightarrow> config option" where
  "step (Main, r) c = Start (mpc c) r c"
| "step (Stats, r) c =
     (case stats_t c of
        None \<Rightarrow> None
      | Some t \<Rightarrow> (case stats (spc t) r t c of
                     None \<Rightarrow> None
                   | Some (t1, c1) \<Rightarrow> Some (c1\<lparr>stats_t := Some t1\<rparr>)))"
| "step (d, r) c =
     (case pipe_of d c of
        None \<Rightarrow> None
      | Some t \<Rightarrow> (case pipe (ppc t) r t c of
                     None \<Rightarrow> None
                   | Some (t1, c1) \<Rightarrow> Some (set_pipe d t1 c1)))"

fun run :: "action list \<Rightarrow> config \<Rightarrow> config option" where
  "run [] c = Some c"
| "run (a # as) c = (case step a c of None \<Rightarrow> None | Some c1 \<Rightarrow> run as c1)"


subsection \<open>main\<close>

text \<open>
  The session \<^verbatim>\<open>main\<close> makes for an accepted connection: \<^verbatim>\<open>NewTLSUnwrapped\<close> under
  the flag \<^verbatim>\<open>-tls\<close>, \<^verbatim>\<open>New\<close> otherwise.
\<close>

definition session :: "bool \<Rightarrow> uint64 \<Rightarrow> conn \<Rightarrow> TCPAddr \<Rightarrow> TCPAddr \<Rightarrow> string \<Rightarrow> Proxy" where
  "session unwrapTLS connId lconn laddr raddr addr =
     (if unwrapTLS then NewTLSUnwrapped connId lconn laddr raddr addr
      else New connId lconn laddr raddr)"

text \<open>
  What \<^verbatim>\<open>main\<close> does, in order: the lines it logs, the sessions it starts
  (\<^verbatim>\<open>go p.Start()\<close>) and the exit of \<^verbatim>\<open>log.Fatalf\<close>. The accept loop never ends;
  it is run over the answers of the \<^verbatim>\<open>AcceptTCP\<close> calls made so far.
\<close>

datatype main_event = MainLogged logline | GoStart Proxy | Exit

fun accept_loop ::
  "bool \<Rightarrow> TCPAddr \<Rightarrow> TCPAddr \<Rightarrow> string \<Rightarrow> uint64 \<Rightarrow> (error + conn) list \<Rightarrow> main_event list" where
  "accept_loop unwrapTLS laddr raddr addr connId [] = []"
| "accept_loop unwrapTLS laddr raddr addr connId (Inl e # rest) =
     MainLogged (AcceptFailed e) # accept_loop unwrapTLS laddr raddr addr connId rest"
| "accept_loop unwrapTLS laddr raddr addr connId (Inr lconn # rest) =
     GoStart (session unwrapTLS (connId + 1) lconn laddr raddr addr)
       # accept_loop unwrapTLS laddr raddr addr (connId + 1) rest"

text \<open>
  \<open>l\<close>, \<open>r\<close> and \<open>unwrapTLS\<close> are the flags; \<open>resolved_l\<close>, \<open>resolved_r\<close> and
  \<open>listened\<close> are the answers of the two \<^verbatim>\<open>ResolveTCPAddr\<close> calls and of
  \<^verbatim>\<open>ListenTCP\<close>.
\<close>

definition main ::
  "string \<Rightarrow> string \<Rightarrow> bool \<Rightarrow> error + TCPAddr \<Rightarrow> error + TCPAddr \<Rightarrow> error option
     \<Rightarrow> (error + conn) list \<Rightarrow> main_event list" where
  "main l r unwrapTLS resolved_l resolved_r listened accepts =
     MainLogged (Proxying l r) #
     (case resolved_l of
        Inl e \<Rightarrow> [MainLogged (Fatal ''failed to resolve local address: %s'' e), Exit]
      | Inr laddr \<Rightarrow>
          (case resolved_r of
             Inl e \<Rightarrow> [MainLogged (Fatal ''failed to resolve remote address: %s'' e), Exit]
           | Inr raddr \<Rightarrow>
               (case listened of
                  Some e \<Rightarrow> [MainLogged (Fatal ''failed to open local port to listen: %s'' e), Exit]
                | None \<Rightarrow> accept_loop unwrapTLS laddr raddr r 0 accepts)))"

section \<open>Runs and the cases of a step\<close>

lemma run_append:
  "run (as @ bs) c = (case run as c of None \<Rightarrow> None | Some c1 \<Rightarrow> run bs c1)"
  by (induction as arbitrary: c) (auto split: option.splits)

lemma run_invariant:
  assumes "\<And>a c c1. I c \<Longrightarrow> step a c = Some c1 \<Longrightarrow> I c1"
  shows "I c \<Longrightarrow> run as c = Some c1 \<Longrightarrow> I c1"
proof (induction as arbitrary: c)
  case Nil
  then show ?case by simp
next
  case (Cons a as)
  then obtain c2 where s: "step a c = Some c2" and r: "run as c2 = Some c1"
    by (auto split: option.splits)
  from assms [OF Cons.prems(1) s] have "I c2" .
  from Cons.IH [OF this r] show ?case .
qed

fun_cases Start_SomeE: "Start pc r c = Some c1"
fun_cases pipe_SomeE: "pipe pc r t c = Some res"
fun_cases stats_SomeE: "stats pc r t c = Some res"
fun_cases err_SomeE: "err q c = Some res"

lemma StartE [consumes 1, case_names Dial_fail Dial_ok Log_failed Log_opened Go_LR Go_RL Go_stats
    Send_done Log_closed Close]:
  assumes major: "Start (mpc c) r c = Some c1"
    and Dial_fail: "\<And>e. mpc c = MStart \<Longrightarrow> r = DialResult (Inl e) \<Longrightarrow>
      c1 = emit [Dialed (remote_target (proxy c)) (Some e)]
              (c\<lparr>deferred := localConn (proxy c) # deferred c, mpc := MLogFailed e\<rparr>) \<Longrightarrow> P"
    and Dial_ok: "\<And>rc. mpc c = MStart \<Longrightarrow> r = DialResult (Inr rc) \<Longrightarrow>
      conn_ptr rc \<noteq> conn_ptr (localConn (proxy c)) \<Longrightarrow>
      c1 = emit [Dialed (remote_target (proxy c)) None]
              (c\<lparr>proxy := (proxy c)\<lparr>remoteConn := Some rc\<rparr>,
                 deferred := rc # localConn (proxy c) # deferred c, mpc := MLogOpened\<rparr>) \<Longrightarrow> P"
    and Log_failed: "\<And>e. mpc c = MLogFailed e \<Longrightarrow> r = Step \<Longrightarrow>
      c1 = emit [Logged (RemoteConnectionFailed (ident (proxy c)) e)] (c\<lparr>mpc := MReturn\<rparr>) \<Longrightarrow> P"
    and Log_opened: "mpc c = MLogOpened \<Longrightarrow> r = Step \<Longrightarrow>
      c1 = emit [Logged (Opened (ident (proxy c)) (addr_String (localAddr (proxy c)))
                    (addr_String (remoteAddr (proxy c))))] (c\<lparr>mpc := MGoPipeLR\<rparr>) \<Longrightarrow> P"
    and Go_LR: "\<And>rc. mpc c = MGoPipeLR \<Longrightarrow> r = Step \<Longrightarrow> remoteConn (proxy c) = Some rc \<Longrightarrow>
      c1 = c\<lparr>pipeLR := Some (new_pipe (localConn (proxy c)) rc), mpc := MGoPipeRL\<rparr> \<Longrightarrow> P"
    and Go_RL: "\<And>rc. mpc c = MGoPipeRL \<Longrightarrow> r = Step \<Longrightarrow> remoteConn (proxy c) = Some rc \<Longrightarrow>
      c1 = c\<lparr>pipeRL := Some (new_pipe rc (localConn (proxy c))), mpc := MGoStats\<rparr> \<Longrightarrow> P"
    and Go_stats: "mpc c = MGoStats \<Longrightarrow> r = Step \<Longrightarrow>
      c1 = c\<lparr>stats_t := Some new_stats, mpc := MWait\<rparr> \<Longrightarrow> P"
    and Send_done: "\<And>t. mpc c = MSendDone \<Longrightarrow> r = Step \<Longrightarrow> stats_t c = Some t \<Longrightarrow>
      spc t = SSelect \<Longrightarrow>
      c1 = emit [DoneSignal] (c\<lparr>stats_t := Some (t\<lparr>spc := SStop\<rparr>), mpc := MLogClosed\<rparr>) \<Longrightarrow> P"
    and Log_closed: "mpc c = MLogClosed \<Longrightarrow> r = Step \<Longrightarrow>
      c1 = emit [Logged (Closed (ident (proxy c)) (sentBytes (proxy c)) (receivedBytes (proxy c)))]
              (c\<lparr>mpc := MReturn\<rparr>) \<Longrightarrow> P"
    and Close: "\<And>k rest eo. mpc c = MReturn \<Longrightarrow> r = CloseResult eo \<Longrightarrow> deferred c = k # rest \<Longrightarrow>
      c1 = emit (close k eo) (c\<lparr>deferred := rest, mpc := (if rest = [] then MExit else MReturn)\<rparr>) \<Longrightarrow> P"
  shows P
proof (rule Start_SomeE [OF major])
  fix res
  assume "mpc c = MStart" "r = DialResult res"
    "Some c1 = (let p = proxy c; c1 = c\<lparr>deferred := localConn p # deferred c\<rparr>
         in case res of
            Inl e \<Rightarrow> Some (emit [Dialed (remote_target p) (Some e)] (c1\<lparr>mpc := MLogFailed e\<rparr>))
          | Inr rc \<Rightarrow>
                if conn_ptr rc = conn_ptr (localConn p) then None
                else Some (emit [Dialed (remote_target p) None]
                        (c1\<lparr>proxy := p\<lparr>remoteConn := Some rc\<rparr>,
                              deferred := rc # deferred c1, mpc := MLogOpened\<rparr>)))"
  then show P
    by (cases res) (auto simp: Let_def split: if_splits intro: Dial_fail Dial_ok)
qed (auto simp: Let_def after_defer_def split: option.splits if_splits list.splits
      intro: Log_failed Log_opened Go_LR Go_RL Go_stats Send_done Log_closed Close)


lemma errE [consumes 1, case_names E_noop E_to_log E_to_send E_log E_send E_mark]:
  assumes major: "err q c = Some (q1, c1)"
    and E_noop: "\<And>s e. q = ErrCheck s e \<Longrightarrow> erred (proxy c) \<Longrightarrow> q1 = None \<Longrightarrow> c1 = c \<Longrightarrow> P"
    and E_to_log: "\<And>s e. q = ErrCheck s e \<Longrightarrow> \<not> erred (proxy c) \<Longrightarrow> e \<noteq> EOF \<Longrightarrow>
      q1 = Some (ErrLog s e) \<Longrightarrow> c1 = c \<Longrightarrow> P"
    and E_to_send: "\<And>s. q = ErrCheck s EOF \<Longrightarrow> \<not> erred (proxy c) \<Longrightarrow>
      q1 = Some ErrSend \<Longrightarrow> c1 = c \<Longrightarrow> P"
    and E_log: "\<And>s e. q = ErrLog s e \<Longrightarrow> q1 = Some ErrSend \<Longrightarrow>
      c1 = emit [Logged (Failed (ident (proxy c)) s e)] c \<Longrightarrow> P"
    and E_send: "q = ErrSend \<Longrightarrow> mpc c = MWait \<Longrightarrow> q1 = Some ErrMark \<Longrightarrow>
      c1 = emit [StopSignal] (c\<lparr>mpc := MSendDone\<rparr>) \<Longrightarrow> P"
    and E_mark: "q = ErrMark \<Longrightarrow> q1 = None \<Longrightarrow>
      c1 = c\<lparr>proxy := (proxy c)\<lparr>erred := True\<rparr>\<rparr> \<Longrightarrow> P"
  shows P
  by (rule err_SomeE [OF major])
     (auto split: if_splits intro: E_noop E_to_log E_to_send E_log E_send E_mark)

lemma pipeE [consumes 1, case_names P_start P_read_err P_read P_write_err P_write P_count P_err]:
  assumes major: "pipe (ppc t) r t c = Some (t1, c1)"
    and P_start: "ppc t = PStart \<Longrightarrow> r = Step \<Longrightarrow>
      t1 = t\<lparr>isLocal := (conn_ptr (src t) = conn_ptr (localConn (proxy c))),
              buff := replicate 0xffff 0, ppc := PRead\<rparr> \<Longrightarrow> c1 = c \<Longrightarrow> P"
    and P_read_err: "\<And>chunk e. ppc t = PRead \<Longrightarrow> r = ReadResult chunk (Some e) \<Longrightarrow>
      length chunk \<le> length (buff t) \<Longrightarrow>
      t1 = t\<lparr>buff := chunk @ drop (length chunk) (buff t), ppc := InErr (ErrCheck read_failed e)\<rparr> \<Longrightarrow>
      c1 = emit [ReadFrom (src t) chunk (Some e)] c \<Longrightarrow> P"
    and P_read: "\<And>chunk. ppc t = PRead \<Longrightarrow> r = ReadResult chunk None \<Longrightarrow>
      length chunk \<le> length (buff t) \<Longrightarrow>
      t1 = t\<lparr>buff := chunk @ drop (length chunk) (buff t), ppc := PWrite (length chunk)\<rparr> \<Longrightarrow>
      c1 = emit [ReadFrom (src t) chunk None] c \<Longrightarrow> P"
    and P_write_err: "\<And>n m e. ppc t = PWrite n \<Longrightarrow> r = WriteResult m (Some e) \<Longrightarrow>
      m \<le> length (take n (buff t)) \<Longrightarrow>
      t1 = t\<lparr>ppc := InErr (ErrCheck write_failed e)\<rparr> \<Longrightarrow>
      c1 = emit [WrittenTo (dst t) (take n (buff t)) m (Some e)] c \<Longrightarrow> P"
    and P_write: "\<And>n m. ppc t = PWrite n \<Longrightarrow> r = WriteResult m None \<Longrightarrow>
      m = length (take n (buff t)) \<Longrightarrow>
      t1 = t\<lparr>ppc := PCount m\<rparr> \<Longrightarrow>
      c1 = emit [WrittenTo (dst t) (take n (buff t)) m None] c \<Longrightarrow> P"
    and P_count: "\<And>n. ppc t = PCount n \<Longrightarrow> r = Step \<Longrightarrow> t1 = t\<lparr>ppc := PRead\<rparr> \<Longrightarrow>
      c1 = c\<lparr>proxy := (if isLocal t
                          then (proxy c)\<lparr>sentBytes := sentBytes (proxy c) + of_nat n\<rparr>
                          else (proxy c)\<lparr>receivedBytes := receivedBytes (proxy c) + of_nat n\<rparr>)\<rparr> \<Longrightarrow> P"
    and P_err: "\<And>q q1. ppc t = InErr q \<Longrightarrow> r = Step \<Longrightarrow> err q c = Some (q1, c1) \<Longrightarrow>
      t1 = t\<lparr>ppc := (case q1 of None \<Rightarrow> PReturn | Some q2 \<Rightarrow> InErr q2)\<rparr> \<Longrightarrow> P"
  shows P
proof (rule pipe_SomeE [OF major])
  fix q
  assume "ppc t = InErr q" "r = Step"
    "Some (t1, c1) = (case err q c of None \<Rightarrow> None
       | Some (None, c1) \<Rightarrow> Some (t\<lparr>ppc := PReturn\<rparr>, c1)
       | Some (Some q1, c1) \<Rightarrow> Some (t\<lparr>ppc := InErr q1\<rparr>, c1))"
  then show P
    by (auto split: option.splits intro: P_err)
next
  fix chunk eo
  assume "ppc t = PRead" "r = ReadResult chunk eo"
    "Some (t1, c1) =
     (if length (buff t) < length chunk then None
      else let t1 = t\<lparr>buff := chunk @ drop (length chunk) (buff t)\<rparr>;
               c1 = emit [ReadFrom (src t) chunk eo] c
           in case eo of None \<Rightarrow> Some (t1\<lparr>ppc := PWrite (length chunk)\<rparr>, c1)
              | Some e \<Rightarrow> Some (t1\<lparr>ppc := InErr (ErrCheck read_failed e)\<rparr>, c1))"
  then show P
    by (cases eo) (auto simp: Let_def split: if_splits intro: P_read P_read_err)
next
  fix n m eo
  assume w: "ppc t = PWrite n" "r = WriteResult m eo"
    "Some (t1, c1) =
     (if min (length (buff t)) n < m \<or> eo = None \<and> m < length (buff t) \<and> m < n
      then None
      else let c1 = emit [WrittenTo (dst t) (take n (buff t)) m eo] c
           in case eo of None \<Rightarrow> Some (t\<lparr>ppc := PCount m\<rparr>, c1)
              | Some e \<Rightarrow> Some (t\<lparr>ppc := InErr (ErrCheck write_failed e)\<rparr>, c1))"
  then show P
  proof (cases eo)
    case None
    with w have "m = length (take n (buff t))" "t1 = t\<lparr>ppc := PCount m\<rparr>"
      "c1 = emit [WrittenTo (dst t) (take n (buff t)) m None] c"
      by (auto simp: Let_def split: if_splits)
    with w None show P by (intro P_write [of n m]) auto
  next
    case (Some e)
    with w have "m \<le> length (take n (buff t))" "t1 = t\<lparr>ppc := InErr (ErrCheck write_failed e)\<rparr>"
      "c1 = emit [WrittenTo (dst t) (take n (buff t)) m (Some e)] c"
      by (auto simp: Let_def split: if_splits)
    with w Some show P by (intro P_write_err [of n m e]) auto
  qed
qed (auto simp: Let_def intro: P_start P_count)

lemma statsE [consumes 1, case_names S_start S_tick S_changed S_same S_log S_update S_stop]:
  assumes major: "stats (spc t) r t c = Some (t1, c1)"
    and S_start: "spc t = SStart \<Longrightarrow> r = Step \<Longrightarrow>
      t1 = t\<lparr>ticker := Some 30, prevSent := 0, prevReceived := 0, spc := SSelect\<rparr> \<Longrightarrow> c1 = c \<Longrightarrow> P"
    and S_tick: "spc t = SSelect \<Longrightarrow> r = Tick \<Longrightarrow> ticker t \<noteq> None \<Longrightarrow>
      t1 = t\<lparr>spc := SCompare\<rparr> \<Longrightarrow> c1 = c \<Longrightarrow> P"
    and S_changed: "spc t = SCompare \<Longrightarrow> r = Step \<Longrightarrow>
      prevSent t \<noteq> sentBytes (proxy c) \<or> prevReceived t \<noteq> receivedBytes (proxy c) \<Longrightarrow>
      t1 = t\<lparr>spc := SLog\<rparr> \<Longrightarrow> c1 = c \<Longrightarrow> P"
    and S_same: "spc t = SCompare \<Longrightarrow> r = Step \<Longrightarrow>
      prevSent t = sentBytes (proxy c) \<Longrightarrow> prevReceived t = receivedBytes (proxy c) \<Longrightarrow>
      t1 = t\<lparr>spc := SSelect\<rparr> \<Longrightarrow> c1 = c \<Longrightarrow> P"
    and S_log: "spc t = SLog \<Longrightarrow> r = Step \<Longrightarrow> t1 = t\<lparr>spc := SUpdate\<rparr> \<Longrightarrow>
      c1 = emit [Logged (Traffic (ident (proxy c)) (sentBytes (proxy c)) (receivedBytes (proxy c)))] c \<Longrightarrow> P"
    and S_update: "spc t = SUpdate \<Longrightarrow> r = Step \<Longrightarrow>
      t1 = t\<lparr>prevSent := sentBytes (proxy c), prevReceived := receivedBytes (proxy c), spc := SSelect\<rparr> \<Longrightarrow>
      c1 = c \<Longrightarrow> P"
    and S_stop: "spc t = SStop \<Longrightarrow> r = Step \<Longrightarrow> t1 = t\<lparr>ticker := None, spc := SReturn\<rparr> \<Longrightarrow>
      c1 = c \<Longrightarrow> P"
  shows P
  by (rule stats_SomeE [OF major])
     (auto simp: Let_def split: if_splits intro: S_start S_tick S_changed S_same S_log S_update S_stop)

lemma step_tasks [consumes 1, case_names Main Pipe Stats]:
  assumes major: "step a c = Some c1"
    and Main: "\<And>r. a = (Main, r) \<Longrightarrow> Start (mpc c) r c = Some c1 \<Longrightarrow> P"
    and Pipe: "\<And>d r t t1 c0. a = (d, r) \<Longrightarrow> d = PipeLR \<or> d = PipeRL \<Longrightarrow> pipe_of d c = Some t \<Longrightarrow>
      pipe (ppc t) r t c = Some (t1, c0) \<Longrightarrow> c1 = set_pipe d t1 c0 \<Longrightarrow> P"
    and Stats: "\<And>r t t1 c0. a = (Stats, r) \<Longrightarrow> stats_t c = Some t \<Longrightarrow>
      stats (spc t) r t c = Some (t1, c0) \<Longrightarrow> c1 = c0\<lparr>stats_t := Some t1\<rparr> \<Longrightarrow> P"
  shows P
proof (cases a)
  case (Pair d r)
  show P
  proof (cases d)
    case Main
    with Pair major show P by (auto intro: assms(2))
  next
    case PipeLR
    with Pair major show P by (auto split: option.splits intro: Pipe)
  next
    case PipeRL
    with Pair major show P by (auto split: option.splits intro: Pipe)
  next
    case Stats
    with Pair major show P by (auto split: option.splits intro: assms(4))
  qed
qed



lemma emit_simps [simp]:
  "proxy (emit es c) = proxy c" "mpc (emit es c) = mpc c"
  "deferred (emit es c) = deferred c" "stats_t (emit es c) = stats_t c"
  "pipeLR (emit es c) = pipeLR c" "pipeRL (emit es c) = pipeRL c"
  "trace (emit es c) = trace c @ es"
  by (simp_all add: emit_def)

lemma set_pipe_simps [simp]:
  "proxy (set_pipe d t c) = proxy c" "mpc (set_pipe d t c) = mpc c"
  "deferred (set_pipe d t c) = deferred c" "stats_t (set_pipe d t c) = stats_t c"
  "trace (set_pipe d t c) = trace c"
  "pipeLR (set_pipe d t c) = (if d = PipeLR then Some t else pipeLR c)"
  "pipeRL (set_pipe d t c) = (if d = PipeRL then Some t else pipeRL c)"
  by (cases d; simp)+

lemma pipe_of_Some:
  "pipe_of d c = Some t \<longleftrightarrow> d = PipeLR \<and> pipeLR c = Some t \<or> d = PipeRL \<and> pipeRL c = Some t"
  by (cases d) auto

text \<open>
  Every step is one of the following: a step of \<^verbatim>\<open>Start\<close>, a step of the pipe from the
  local to the remote connection (\<open>LR\<close>) or of the pipe back (\<open>RL\<close>), or a step of
  \<^verbatim>\<open>stats\<close>.
\<close>

lemma stepE [consumes 1, case_names Dial_fail Dial_ok Log_failed Log_opened Go_LR Go_RL Go_stats
    Send_done Log_closed Close
    LR_start LR_read_err LR_read LR_write_err LR_write LR_count LR_noop LR_to_log LR_to_send LR_log LR_send LR_mark
    RL_start RL_read_err RL_read RL_write_err RL_write RL_count RL_noop RL_to_log RL_to_send RL_log RL_send RL_mark
    S_start S_tick S_changed S_same S_log S_update S_stop]:
  assumes major: "step a c = Some c1"
    and Dial_fail: "\<And>e. a = (Main, DialResult (Inl e)) \<Longrightarrow> mpc c = MStart \<Longrightarrow>
      c1 = emit [Dialed (remote_target (proxy c)) (Some e)]
              (c\<lparr>deferred := localConn (proxy c) # deferred c, mpc := MLogFailed e\<rparr>) \<Longrightarrow> P"
    and Dial_ok: "\<And>rc. a = (Main, DialResult (Inr rc)) \<Longrightarrow> mpc c = MStart \<Longrightarrow>
      conn_ptr rc \<noteq> conn_ptr (localConn (proxy c)) \<Longrightarrow>
      c1 = emit [Dialed (remote_target (proxy c)) None]
              (c\<lparr>proxy := (proxy c)\<lparr>remoteConn := Some rc\<rparr>,
                 deferred := rc # localConn (proxy c) # deferred c, mpc := MLogOpened\<rparr>) \<Longrightarrow> P"
    and Log_failed: "\<And>e. a = (Main, Step) \<Longrightarrow> mpc c = MLogFailed e \<Longrightarrow>
      c1 = emit [Logged (RemoteConnectionFailed (ident (proxy c)) e)] (c\<lparr>mpc := MReturn\<rparr>) \<Longrightarrow> P"
    and Log_opened: "a = (Main, Step) \<Longrightarrow> mpc c = MLogOpened \<Longrightarrow>
      c1 = emit [Logged (Opened (ident (proxy c)) (addr_String (localAddr (proxy c)))
                    (addr_String (remoteAddr (proxy c))))] (c\<lparr>mpc := MGoPipeLR\<rparr>) \<Longrightarrow> P"
    and Go_LR: "\<And>rc. a = (Main, Step) \<Longrightarrow> mpc c = MGoPipeLR \<Longrightarrow> remoteConn (proxy c) = Some rc \<Longrightarrow>
      c1 = c\<lparr>pipeLR := Some (new_pipe (localConn (proxy c)) rc), mpc := MGoPipeRL\<rparr> \<Longrightarrow> P"
    and Go_RL: "\<And>rc. a = (Main, Step) \<Longrightarrow> mpc c = MGoPipeRL \<Longrightarrow> remoteConn (proxy c) = Some rc \<Longrightarrow>
      c1 = c\<lparr>pipeRL := Some (new_pipe rc (localConn (proxy c))), mpc := MGoStats\<rparr> \<Longrightarrow> P"
    and Go_stats: "a = (Main, Step) \<Longrightarrow> mpc c = MGoStats \<Longrightarrow>
      c1 = c\<lparr>stats_t := Some new_stats, mpc := MWait\<rparr> \<Longrightarrow> P"
    and Send_done: "\<And>t. a = (Main, Step) \<Longrightarrow> mpc c = MSendDone \<Longrightarrow> stats_t c = Some t \<Longrightarrow>
      spc t = SSelect \<Longrightarrow>
      c1 = emit [DoneSignal] (c\<lparr>stats_t := Some (t\<lparr>spc := SStop\<rparr>), mpc := MLogClosed\<rparr>) \<Longrightarrow> P"
    and Log_closed: "a = (Main, Step) \<Longrightarrow> mpc c = MLogClosed \<Longrightarrow>
      c1 = emit [Logged (Closed (ident (proxy c)) (sentBytes (proxy c)) (receivedBytes (proxy c)))]
              (c\<lparr>mpc := MReturn\<rparr>) \<Longrightarrow> P"
    and Close: "\<And>k rest eo. a = (Main, CloseResult eo) \<Longrightarrow> mpc c = MReturn \<Longrightarrow>
      deferred c = k # rest \<Longrightarrow>
      c1 = emit (close k eo) (c\<lparr>deferred := rest, mpc := (if rest = [] then MExit else MReturn)\<rparr>) \<Longrightarrow> P"
    and LR_start: "\<And>t. a = (PipeLR, Step) \<Longrightarrow> pipeLR c = Some t \<Longrightarrow>
      ppc t = PStart \<Longrightarrow>
      c1 = (c)\<lparr>pipeLR := Some (t\<lparr>isLocal := (conn_ptr (src t) = conn_ptr (localConn (proxy c))),
              buff := replicate 0xffff 0, ppc := PRead\<rparr>)\<rparr> \<Longrightarrow> P"
    and LR_read_err: "\<And>t chunk e. a = (PipeLR, ReadResult chunk (Some e)) \<Longrightarrow> pipeLR c = Some t \<Longrightarrow>
      ppc t = PRead \<Longrightarrow> length chunk \<le> length (buff t) \<Longrightarrow>
      c1 = (emit [ReadFrom (src t) chunk (Some e)] c)\<lparr>pipeLR := Some (t\<lparr>buff := chunk @ drop (length chunk) (buff t),
              ppc := InErr (ErrCheck read_failed e)\<rparr>)\<rparr> \<Longrightarrow> P"
    and LR_read: "\<And>t chunk. a = (PipeLR, ReadResult chunk None) \<Longrightarrow> pipeLR c = Some t \<Longrightarrow>
      ppc t = PRead \<Longrightarrow> length chunk \<le> length (buff t) \<Longrightarrow>
      c1 = (emit [ReadFrom (src t) chunk None] c)\<lparr>pipeLR := Some (t\<lparr>buff := chunk @ drop (length chunk) (buff t), ppc := PWrite (length chunk)\<rparr>)\<rparr> \<Longrightarrow> P"
    and LR_write_err: "\<And>t n m e. a = (PipeLR, WriteResult m (Some e)) \<Longrightarrow> pipeLR c = Some t \<Longrightarrow>
      ppc t = PWrite n \<Longrightarrow> m \<le> length (take n (buff t)) \<Longrightarrow>
      c1 = (emit [WrittenTo (dst t) (take n (buff t)) m (Some e)] c)\<lparr>pipeLR := Some (t\<lparr>ppc := InErr (ErrCheck write_failed e)\<rparr>)\<rparr> \<Longrightarrow> P"
    and LR_write: "\<And>t n m. a = (PipeLR, WriteResult m None) \<Longrightarrow> pipeLR c = Some t \<Longrightarrow>
      ppc t = PWrite n \<Longrightarrow> m = length (take n (buff t)) \<Longrightarrow>
      c1 = (emit [WrittenTo (dst t) (take n (buff t)) m None] c)\<lparr>pipeLR := Some (t\<lparr>ppc := PCount m\<rparr>)\<rparr> \<Longrightarrow> P"
    and LR_count: "\<And>t n. a = (PipeLR, Step) \<Longrightarrow> pipeLR c = Some t \<Longrightarrow>
      ppc t = PCount n \<Longrightarrow>
      c1 = (c\<lparr>proxy := (if isLocal t
                          then (proxy c)\<lparr>sentBytes := sentBytes (proxy c) + of_nat n\<rparr>
                          else (proxy c)\<lparr>receivedBytes := receivedBytes (proxy c) + of_nat n\<rparr>)\<rparr>)\<lparr>pipeLR := Some (t\<lparr>ppc := PRead\<rparr>)\<rparr> \<Longrightarrow> P"
    and LR_noop: "\<And>t s e. a = (PipeLR, Step) \<Longrightarrow> pipeLR c = Some t \<Longrightarrow>
      ppc t = InErr (ErrCheck s e) \<Longrightarrow> erred (proxy c) \<Longrightarrow>
      c1 = (c)\<lparr>pipeLR := Some (t\<lparr>ppc := PReturn\<rparr>)\<rparr> \<Longrightarrow> P"
    and LR_to_log: "\<And>t s e. a = (PipeLR, Step) \<Longrightarrow> pipeLR c = Some t \<Longrightarrow>
      ppc t = InErr (ErrCheck s e) \<Longrightarrow> \<not> erred (proxy c) \<Longrightarrow> e \<noteq> EOF \<Longrightarrow>
      c1 = (c)\<lparr>pipeLR := Some (t\<lparr>ppc := InErr (ErrLog s e)\<rparr>)\<rparr> \<Longrightarrow> P"
    and LR_to_send: "\<And>t s. a = (PipeLR, Step) \<Longrightarrow> pipeLR c = Some t \<Longrightarrow>
      ppc t = InErr (ErrCheck s EOF) \<Longrightarrow> \<not> erred (proxy c) \<Longrightarrow>
      c1 = (c)\<lparr>pipeLR := Some (t\<lparr>ppc := InErr ErrSend\<rparr>)\<rparr> \<Longrightarrow> P"
    and LR_log: "\<And>t s e. a = (PipeLR, Step) \<Longrightarrow> pipeLR c = Some t \<Longrightarrow>
      ppc t = InErr (ErrLog s e) \<Longrightarrow>
      c1 = (emit [Logged (Failed (ident (proxy c)) s e)] c)\<lparr>pipeLR := Some (t\<lparr>ppc := InErr ErrSend\<rparr>)\<rparr> \<Longrightarrow> P"
    and LR_send: "\<And>t. a = (PipeLR, Step) \<Longrightarrow> pipeLR c = Some t \<Longrightarrow>
      ppc t = InErr ErrSend \<Longrightarrow> mpc c = MWait \<Longrightarrow>
      c1 = (emit [StopSignal] (c\<lparr>mpc := MSendDone\<rparr>))\<lparr>pipeLR := Some (t\<lparr>ppc := InErr ErrMark\<rparr>)\<rparr> \<Longrightarrow> P"
    and LR_mark: "\<And>t. a = (PipeLR, Step) \<Longrightarrow> pipeLR c = Some t \<Longrightarrow>
      ppc t = InErr ErrMark \<Longrightarrow>
      c1 = (c\<lparr>proxy := (proxy c)\<lparr>erred := True\<rparr>\<rparr>)\<lparr>pipeLR := Some (t\<lparr>ppc := PReturn\<rparr>)\<rparr> \<Longrightarrow> P"
    and RL_start: "\<And>t. a = (PipeRL, Step) \<Longrightarrow> pipeRL c = Some t \<Longrightarrow>
      ppc t = PStart \<Longrightarrow>
      c1 = (c)\<lparr>pipeRL := Some (t\<lparr>isLocal := (conn_ptr (src t) = conn_ptr (localConn (proxy c))),
              buff := replicate 0xffff 0, ppc := PRead\<rparr>)\<rparr> \<Longrightarrow> P"
    and RL_read_err: "\<And>t chunk e. a = (PipeRL, ReadResult chunk (Some e)) \<Longrightarrow> pipeRL c = Some t \<Longrightarrow>
      ppc t = PRead \<Longrightarrow> length chunk \<le> length (buff t) \<Longrightarrow>
      c1 = (emit [ReadFrom (src t) chunk (Some e)] c)\<lparr>pipeRL := Some (t\<lparr>buff := chunk @ drop (length chunk) (buff t),
              ppc := InErr (ErrCheck read_failed e)\<rparr>)\<rparr> \<Longrightarrow> P"
    and RL_read: "\<And>t chunk. a = (PipeRL, ReadResult chunk None) \<Longrightarrow> pipeRL c = Some t \<Longrightarrow>
      ppc t = PRead \<Longrightarrow> length chunk \<le> length (buff t) \<Longrightarrow>
      c1 = (emit [ReadFrom (src t) chunk None] c)\<lparr>pipeRL := Some (t\<lparr>buff := chunk @ drop (length chunk) (buff t), ppc := PWrite (length chunk)\<rparr>)\<rparr> \<Longrightarrow> P"
    and RL_write_err: "\<And>t n m e. a = (PipeRL, WriteResult m (Some e)) \<Longrightarrow> pipeRL c = Some t \<Longrightarrow>
      ppc t = PWrite n \<Longrightarrow> m \<le> length (take n (buff t)) \<Longrightarrow>
      c1 = (emit [WrittenTo (dst t) (take n (buff t)) m (Some e)] c)\<lparr>pipeRL := Some (t\<lparr>ppc := InErr (ErrCheck write_failed e)\<rparr>)\<rparr> \<Longrightarrow> P"
    and RL_write: "\<And>t n m. a = (PipeRL, WriteResult m None) \<Longrightarrow> pipeRL c = Some t \<Longrightarrow>
      ppc t = PWrite n \<Longrightarrow> m = length (take n (buff t)) \<Longrightarrow>
      c1 = (emit [WrittenTo (dst t) (take n (buff t)) m None] c)\<lparr>pipeRL := Some (t\<lparr>ppc := PCount m\<rparr>)\<rparr> \<Longrightarrow> P"
    and RL_count: "\<And>t n. a = (PipeRL, Step) \<Longrightarrow> pipeRL c = Some t \<Longrightarrow>
      ppc t = PCount n \<Longrightarrow>
      c1 = (c\<lparr>proxy := (if isLocal t
                          then (proxy c)\<lparr>sentBytes := sentBytes (proxy c) + of_nat n\<rparr>
                          else (proxy c)\<lparr>receivedBytes := receivedBytes (proxy c) + of_nat n\<rparr>)\<rparr>)\<lparr>pipeRL := Some (t\<lparr>ppc := PRead\<rparr>)\<rparr> \<Longrightarrow> P"
    and RL_noop: "\<And>t s e. a = (PipeRL, Step) \<Longrightarrow> pipeRL c = Some t \<Longrightarrow>
      ppc t = InErr (ErrCheck s e) \<Longrightarrow> erred (proxy c) \<Longrightarrow>
      c1 = (c)\<lparr>pipeRL := Some (t\<lparr>ppc := PReturn\<rparr>)\<rparr> \<Longrightarrow> P"
    and RL_to_log: "\<And>t s e. a = (PipeRL, Step) \<Longrightarrow> pipeRL c = Some t \<Longrightarrow>
      ppc t = InErr (ErrCheck s e) \<Longrightarrow> \<not> erred (proxy c) \<Longrightarrow> e \<noteq> EOF \<Longrightarrow>
      c1 = (c)\<lparr>pipeRL := Some (t\<lparr>ppc := InErr (ErrLog s e)\<rparr>)\<rparr> \<Longrightarrow> P"
    and RL_to_send: "\<And>t s. a = (PipeRL, Step) \<Longrightarrow> pipeRL c = Some t \<Longrightarrow>
      ppc t = InErr (ErrCheck s EOF) \<Longrightarrow> \<not> erred (proxy c) \<Longrightarrow>
      c1 = (c)\<lparr>pipeRL := Some (t\<lparr>ppc := InErr ErrSend\<rparr>)\<rparr> \<Longrightarrow> P"
    and RL_log: "\<And>t s e. a = (PipeRL, Step) \<Longrightarrow> pipeRL c = Some t \<Longrightarrow>
      ppc t = InErr (ErrLog s e) \<Longrightarrow>
      c1 = (emit [Logged (Failed (ident (proxy c)) s e)] c)\<lparr>pipeRL := Some (t\<lparr>ppc := InErr ErrSend\<rparr>)\<rparr> \<Longrightarrow> P"
    and RL_send: "\<And>t. a = (PipeRL, Step) \<Longrightarrow> pipeRL c = Some t \<Longrightarrow>
      ppc t = InErr ErrSend \<Longrightarrow> mpc c = MWait \<Longrightarrow>
      c1 = (emit [StopSignal] (c\<lparr>mpc := MSendDone\<rparr>))\<lparr>pipeRL := Some (t\<lparr>ppc := InErr ErrMark\<rparr>)\<rparr> \<Longrightarrow> P"
    and RL_mark: "\<And>t. a = (PipeRL, Step) \<Longrightarrow> pipeRL c = Some t \<Longrightarrow>
      ppc t = InErr ErrMark \<Longrightarrow>
      c1 = (c\<lparr>proxy := (proxy c)\<lparr>erred := True\<rparr>\<rparr>)\<lparr>pipeRL := Some (t\<lparr>ppc := PReturn\<rparr>)\<rparr> \<Longrightarrow> P"
    and S_start: "\<And>t. a = (Stats, Step) \<Longrightarrow> stats_t c = Some t \<Longrightarrow> spc t = SStart \<Longrightarrow>
      c1 = c\<lparr>stats_t := Some (t\<lparr>ticker := Some 30, prevSent := 0, prevReceived := 0,
                                  spc := SSelect\<rparr>)\<rparr> \<Longrightarrow> P"
    and S_tick: "\<And>t. a = (Stats, Tick) \<Longrightarrow> stats_t c = Some t \<Longrightarrow> spc t = SSelect \<Longrightarrow>
      ticker t \<noteq> None \<Longrightarrow> c1 = c\<lparr>stats_t := Some (t\<lparr>spc := SCompare\<rparr>)\<rparr> \<Longrightarrow> P"
    and S_changed: "\<And>t. a = (Stats, Step) \<Longrightarrow> stats_t c = Some t \<Longrightarrow> spc t = SCompare \<Longrightarrow>
      prevSent t \<noteq> sentBytes (proxy c) \<or> prevReceived t \<noteq> receivedBytes (proxy c) \<Longrightarrow>
      c1 = c\<lparr>stats_t := Some (t\<lparr>spc := SLog\<rparr>)\<rparr> \<Longrightarrow> P"
    and S_same: "\<And>t. a = (Stats, Step) \<Longrightarrow> stats_t c = Some t \<Longrightarrow> spc t = SCompare \<Longrightarrow>
      prevSent t = sentBytes (proxy c) \<Longrightarrow> prevReceived t = receivedBytes (proxy c) \<Longrightarrow>
      c1 = c\<lparr>stats_t := Some (t\<lparr>spc := SSelect\<rparr>)\<rparr> \<Longrightarrow> P"
    and S_log: "\<And>t. a = (Stats, Step) \<Longrightarrow> stats_t c = Some t \<Longrightarrow> spc t = SLog \<Longrightarrow>
      c1 = (emit [Logged (Traffic (ident (proxy c)) (sentBytes (proxy c)) (receivedBytes (proxy c)))] c)
             \<lparr>stats_t := Some (t\<lparr>spc := SUpdate\<rparr>)\<rparr> \<Longrightarrow> P"
    and S_update: "\<And>t. a = (Stats, Step) \<Longrightarrow> stats_t c = Some t \<Longrightarrow> spc t = SUpdate \<Longrightarrow>
      c1 = c\<lparr>stats_t := Some (t\<lparr>prevSent := sentBytes (proxy c),
                                  prevReceived := receivedBytes (proxy c), spc := SSelect\<rparr>)\<rparr> \<Longrightarrow> P"
    and S_stop: "\<And>t. a = (Stats, Step) \<Longrightarrow> stats_t c = Some t \<Longrightarrow> spc t = SStop \<Longrightarrow>
      c1 = c\<lparr>stats_t := Some (t\<lparr>ticker := None, spc := SReturn\<rparr>)\<rparr> \<Longrightarrow> P"
  shows P
  using major
proof (cases rule: step_tasks)
  case (Main r)
  from Main(2) show P
    by (cases rule: StartE)
       (use Main(1) in \<open>auto intro: Dial_fail Dial_ok Log_failed Log_opened Go_LR Go_RL Go_stats
          Send_done Log_closed Close\<close>)
next
  case (Pipe d r t t1 c0)
  from Pipe(2) show P
  proof
    assume d: "d = PipeLR"
    from Pipe(4) show P
    proof (cases rule: pipeE)
      case (P_err q q1)
      from P_err(3) show P
        by (cases rule: errE)
           (use d Pipe(1,3,5) P_err(1,2,4) in \<open>auto intro: LR_noop LR_to_log LR_to_send LR_log LR_send LR_mark\<close>)
    qed (use d Pipe(1,3,5) in \<open>auto intro: LR_start LR_read_err LR_read LR_write_err LR_write LR_count\<close>)
  next
    assume d: "d = PipeRL"
    from Pipe(4) show P
    proof (cases rule: pipeE)
      case (P_err q q1)
      from P_err(3) show P
        by (cases rule: errE)
           (use d Pipe(1,3,5) P_err(1,2,4) in \<open>auto intro: RL_noop RL_to_log RL_to_send RL_log RL_send RL_mark\<close>)
    qed (use d Pipe(1,3,5) in \<open>auto intro: RL_start RL_read_err RL_read RL_write_err RL_write RL_count\<close>)
  qed
next
  case (Stats r t t1 c0)
  from Stats(3) show P
    by (cases rule: statsE)
       (use Stats(1,2,4) in
          \<open>auto simp: emit_def intro: S_start S_tick S_changed S_same S_log S_update S_stop\<close>)
qed

section \<open>What holds in every reachable configuration\<close>

text \<open>\<open>stage\<close> orders the program points of \<^verbatim>\<open>Start\<close>.\<close>

fun stage :: "main_pc \<Rightarrow> nat" where
  "stage MStart = 0"
| "stage (MLogFailed e) = 1"
| "stage MLogOpened = 2"
| "stage MGoPipeLR = 3"
| "stage MGoPipeRL = 4"
| "stage MGoStats = 5"
| "stage MWait = 6"
| "stage MSendDone = 7"
| "stage MLogClosed = 8"
| "stage MReturn = 9"
| "stage MExit = 10"

definition same_session :: "Proxy \<Rightarrow> Proxy \<Rightarrow> bool" where
  "same_session p q =
     (ident q = ident p \<and> localAddr q = localAddr p \<and> remoteAddr q = remoteAddr p \<and>
      localConn q = localConn p \<and> tlsUnwrap q = tlsUnwrap p \<and> tlsAddress q = tlsAddress p)"

fun remote_at :: "conn \<Rightarrow> conn option \<Rightarrow> nat \<Rightarrow> bool" where
  "remote_at l None st = (st \<le> 1 \<or> 9 \<le> st)"
| "remote_at l (Some rc) st = (conn_ptr rc \<noteq> conn_ptr l \<and> 2 \<le> st)"

fun pending_len :: "pipe_pc \<Rightarrow> nat" where
  "pending_len (PWrite n) = n"
| "pending_len pc = 0"

definition task_ok :: "bool \<Rightarrow> pipe_task \<Rightarrow> bool" where
  "task_ok loc t =
     ((ppc t = PStart \<or> (isLocal t = loc \<and> length (buff t) = 65535)) \<and>
      pending_len (ppc t) \<le> 65535)"

fun lr_at :: "conn \<Rightarrow> pipe_task option \<Rightarrow> conn option \<Rightarrow> nat \<Rightarrow> bool" where
  "lr_at l None rc st = (rc = None \<or> st \<le> 3)"
| "lr_at l (Some t) rc st = (4 \<le> st \<and> rc = Some (dst t) \<and> src t = l \<and> task_ok True t)"

fun rl_at :: "conn \<Rightarrow> pipe_task option \<Rightarrow> conn option \<Rightarrow> nat \<Rightarrow> bool" where
  "rl_at l None rc st = (rc = None \<or> st \<le> 4)"
| "rl_at l (Some t) rc st = (5 \<le> st \<and> rc = Some (src t) \<and> dst t = l \<and> task_ok False t)"

fun stats_at :: "stats_task option \<Rightarrow> conn option \<Rightarrow> nat \<Rightarrow> bool" where
  "stats_at None rc st = (rc = None \<or> st \<le> 5)"
| "stats_at (Some t) rc st =
     (6 \<le> st \<and> ((spc t = SStop \<or> spc t = SReturn) = (8 \<le> st)) \<and>
      ticker t = (if spc t = SStart \<or> spc t = SReturn then None else Some 30))"

definition shape_ok :: "config \<Rightarrow> bool" where
  "shape_ok c =
     (remote_at (localConn (proxy c)) (remoteConn (proxy c)) (stage (mpc c)) \<and>
      lr_at (localConn (proxy c)) (pipeLR c) (remoteConn (proxy c)) (stage (mpc c)) \<and>
      rl_at (localConn (proxy c)) (pipeRL c) (remoteConn (proxy c)) (stage (mpc c)) \<and>
      stats_at (stats_t c) (remoteConn (proxy c)) (stage (mpc c)))"

definition frozen :: "Proxy \<Rightarrow> Proxy" where
  "frozen p = p\<lparr>sentBytes := 0, receivedBytes := 0, remoteConn := None, erred := False\<rparr>"

lemma frozen_step:
  assumes "step a c = Some c1"
  shows "frozen (proxy c1) = frozen (proxy c)"
  using assms by (cases rule: stepE) (auto simp: frozen_def)

lemma remote_step:
  assumes "step a c = Some c1"
    "remote_at (localConn (proxy c)) (remoteConn (proxy c)) (stage (mpc c))"
  shows "remote_at (localConn (proxy c1)) (remoteConn (proxy c1)) (stage (mpc c1))"
  using assms by (cases rule: stepE; cases "remoteConn (proxy c)") auto

lemma lr_step:
  assumes "step a c = Some c1"
    "remote_at (localConn (proxy c)) (remoteConn (proxy c)) (stage (mpc c))"
    "lr_at (localConn (proxy c)) (pipeLR c) (remoteConn (proxy c)) (stage (mpc c))"
  shows "lr_at (localConn (proxy c1)) (pipeLR c1) (remoteConn (proxy c1)) (stage (mpc c1))"
  using assms
  by (cases rule: stepE; cases "pipeLR c"; cases "remoteConn (proxy c)")
     (auto simp: new_pipe_def task_ok_def)

lemma rl_step:
  assumes "step a c = Some c1"
    "remote_at (localConn (proxy c)) (remoteConn (proxy c)) (stage (mpc c))"
    "rl_at (localConn (proxy c)) (pipeRL c) (remoteConn (proxy c)) (stage (mpc c))"
  shows "rl_at (localConn (proxy c1)) (pipeRL c1) (remoteConn (proxy c1)) (stage (mpc c1))"
  using assms
  by (cases rule: stepE; cases "pipeRL c"; cases "remoteConn (proxy c)")
     (auto simp: new_pipe_def task_ok_def)

lemma stats_step:
  assumes "step a c = Some c1" 
    "remote_at (localConn (proxy c)) (remoteConn (proxy c)) (stage (mpc c))"
    "stats_at (stats_t c) (remoteConn (proxy c)) (stage (mpc c))"
  shows "stats_at (stats_t c1) (remoteConn (proxy c1)) (stage (mpc c1))"
  using assms
  by (cases rule: stepE; cases "stats_t c"; cases "remoteConn (proxy c)") (auto simp: new_stats_def)

lemma shape_step: "step a c = Some c1 \<Longrightarrow> shape_ok c \<Longrightarrow> shape_ok c1"
  unfolding shape_ok_def using remote_step lr_step rl_step stats_step by blast

lemma shape_initial: "remoteConn p = None \<Longrightarrow> shape_ok (initial p)"
  by (simp add: shape_ok_def initial_def)



subsection \<open>Readings of the trace\<close>

fun logged :: "event list \<Rightarrow> logline list" where
  "logged [] = []"
| "logged (Logged l # es) = l # logged es"
| "logged (e # es) = logged es"

fun closes :: "event list \<Rightarrow> conn list" where
  "closes [] = []"
| "closes (ClosedConn k eo # es) = k # closes es"
| "closes (e # es) = closes es"

fun stops :: "event list \<Rightarrow> nat" where
  "stops [] = 0"
| "stops (StopSignal # es) = Suc (stops es)"
| "stops (e # es) = stops es"

fun dials :: "event list \<Rightarrow> error option list" where
  "dials [] = []"
| "dials (Dialed target eo # es) = eo # dials es"
| "dials (e # es) = dials es"

text \<open>The chunks that \<^verbatim>\<open>Read\<close> calls on connection \<open>k\<close> returned without an error.\<close>

fun reads_ok :: "conn \<Rightarrow> event list \<Rightarrow> byte list list" where
  "reads_ok k [] = []"
| "reads_ok k (ReadFrom k1 chunk eo # es) =
     (if k1 = k \<and> eo = None then chunk # reads_ok k es else reads_ok k es)"
| "reads_ok k (e # es) = reads_ok k es"

text \<open>The slices handed to the \<^verbatim>\<open>Write\<close> calls on connection \<open>k\<close>.\<close>

fun offered :: "conn \<Rightarrow> event list \<Rightarrow> byte list list" where
  "offered k [] = []"
| "offered k (WrittenTo k1 out m eo # es) =
     (if k1 = k then out # offered k es else offered k es)"
| "offered k (e # es) = offered k es"

text \<open>The bytes connection \<open>k\<close> took: of each \<^verbatim>\<open>Write\<close>, the first \<open>m\<close> bytes.\<close>

fun accepted :: "conn \<Rightarrow> event list \<Rightarrow> byte list" where
  "accepted k [] = []"
| "accepted k (WrittenTo k1 out m eo # es) =
     (if k1 = k then take m out @ accepted k es else accepted k es)"
| "accepted k (e # es) = accepted k es"

text \<open>The sum of the counts \<open>m\<close> of the \<^verbatim>\<open>Write\<close> calls on \<open>k\<close> that returned no error.\<close>

fun written_ok :: "conn \<Rightarrow> event list \<Rightarrow> nat" where
  "written_ok k [] = 0"
| "written_ok k (WrittenTo k1 out m eo # es) =
     (if k1 = k \<and> eo = None then m + written_ok k es else written_ok k es)"
| "written_ok k (e # es) = written_ok k es"

fun io_events :: "event list \<Rightarrow> event list" where
  "io_events [] = []"
| "io_events (ReadFrom k chunk eo # es) = ReadFrom k chunk eo # io_events es"
| "io_events (WrittenTo k out m eo # es) = WrittenTo k out m eo # io_events es"
| "io_events (e # es) = io_events es"

lemma logged_append [simp]: "logged (xs @ ys) = logged xs @ logged ys"
  by (induction xs rule: logged.induct) auto

lemma closes_append [simp]: "closes (xs @ ys) = closes xs @ closes ys"
  by (induction xs rule: closes.induct) auto

lemma stops_append [simp]: "stops (xs @ ys) = stops xs + stops ys"
  by (induction xs rule: stops.induct) auto

lemma dials_append [simp]: "dials (xs @ ys) = dials xs @ dials ys"
  by (induction xs rule: dials.induct) auto

lemma reads_ok_append [simp]: "reads_ok k (xs @ ys) = reads_ok k xs @ reads_ok k ys"
  by (induction k xs rule: reads_ok.induct) auto

lemma offered_append [simp]: "offered k (xs @ ys) = offered k xs @ offered k ys"
  by (induction k xs rule: offered.induct) auto

lemma accepted_append [simp]: "accepted k (xs @ ys) = accepted k xs @ accepted k ys"
  by (induction k xs rule: accepted.induct) auto

lemma written_ok_append [simp]: "written_ok k (xs @ ys) = written_ok k xs + written_ok k ys"
  by (induction k xs rule: written_ok.induct) auto

lemma io_events_append [simp]: "io_events (xs @ ys) = io_events xs @ io_events ys"
  by (induction xs rule: io_events.induct) auto

lemma no_io:
  assumes "io_events tr = []"
  shows "reads_ok k tr = []" "offered k tr = []" "accepted k tr = []" "written_ok k tr = 0"
  using assms by (induction tr rule: io_events.induct) auto

lemma close_readings [simp]:
  "closes (close k eo) = [k]" "stops (close k eo) = 0" "dials (close k eo) = []"
  "io_events (close k eo) = []"
  "logged (close k eo) = (case eo of None \<Rightarrow> [] | Some e \<Rightarrow> [ErrorWhileClosing e])"
  by (auto simp: close_def split: option.splits)



lemma conn_neq:
  "conn_ptr a \<noteq> conn_ptr b \<Longrightarrow> (a = b) = False"
  "conn_ptr a \<noteq> conn_ptr b \<Longrightarrow> (b = a) = False"
  by auto

subsection \<open>One dial, one signal, the deferred closes\<close>

definition signalled :: "config \<Rightarrow> bool" where
  "signalled c = (remoteConn (proxy c) \<noteq> None \<and> 7 \<le> stage (mpc c))"

fun at_pc :: "pipe_pc \<Rightarrow> pipe_task option \<Rightarrow> bool" where
  "at_pc pc None = False"
| "at_pc pc (Some t) = (ppc t = pc)"

definition signal_ok :: "config \<Rightarrow> bool" where
  "signal_ok c =
     (stops (trace c) = (if signalled c then 1 else 0) \<and>
      (erred (proxy c) \<longrightarrow> signalled c) \<and>
      (at_pc (InErr ErrMark) (pipeLR c) \<longrightarrow> signalled c) \<and>
      (at_pc (InErr ErrMark) (pipeRL c) \<longrightarrow> signalled c))"

fun due_closes :: "conn \<Rightarrow> conn option \<Rightarrow> conn list" where
  "due_closes l None = [l]"
| "due_closes l (Some r) = [r, l]"

definition teardown_ok :: "config \<Rightarrow> bool" where
  "teardown_ok c =
     (closes (trace c) @ deferred c =
        (if mpc c = MStart then [] else due_closes (localConn (proxy c)) (remoteConn (proxy c))) \<and>
      (stage (mpc c) < 9 \<longrightarrow> closes (trace c) = []) \<and>
      (deferred c = [] \<longleftrightarrow> mpc c = MStart \<or> mpc c = MExit) \<and>
      length (dials (trace c)) = (if mpc c = MStart then 0 else 1) \<and>
      (remoteConn (proxy c) = None \<longleftrightarrow> None \<notin> set (dials (trace c))))"


lemma signal_step:
  assumes "step a c = Some c1" "shape_ok c" "signal_ok c"
  shows "signal_ok c1"
  using assms
  by (cases rule: stepE; cases "remoteConn (proxy c)"; cases "pipeLR c"; cases "pipeRL c")
     (auto simp: signal_ok_def signalled_def shape_ok_def new_pipe_def)

lemma teardown_step:
  assumes "step a c = Some c1" "shape_ok c" "teardown_ok c"
  shows "teardown_ok c1"
  using assms
  by (cases rule: stepE; cases "remoteConn (proxy c)")
     (auto simp: teardown_ok_def shape_ok_def split: if_splits)
subsection \<open>The relay and the counters\<close>

fun pending_of :: "pipe_pc \<Rightarrow> byte list \<Rightarrow> byte list list" where
  "pending_of (PWrite n) b = [take n b]"
| "pending_of pc b = []"

text \<open>The slice a pipe has read and not yet handed to \<^verbatim>\<open>Write\<close>.\<close>

fun pending :: "pipe_task option \<Rightarrow> byte list list" where
  "pending None = []"
| "pending (Some t) = pending_of (ppc t) (buff t)"

fun uncounted_of :: "pipe_pc \<Rightarrow> nat" where
  "uncounted_of (PCount n) = n"
| "uncounted_of pc = 0"

text \<open>The count of a write that has returned and is not yet added to the counter.\<close>

fun uncounted :: "pipe_task option \<Rightarrow> nat" where
  "uncounted None = 0"
| "uncounted (Some t) = uncounted_of (ppc t)"

fun copying_pc :: "pipe_pc \<Rightarrow> bool" where
  "copying_pc (InErr q) = False"
| "copying_pc PReturn = False"
| "copying_pc pc = True"

text \<open>A pipe that has not left its loop.\<close>

fun copying :: "pipe_task option \<Rightarrow> bool" where
  "copying None = True"
| "copying (Some t) = copying_pc (ppc t)"

fun relay_at ::
  "conn \<Rightarrow> conn option \<Rightarrow> pipe_task option \<Rightarrow> pipe_task option \<Rightarrow> event list \<Rightarrow> bool" where
  "relay_at l None lr rl tr = (io_events tr = [])"
| "relay_at l (Some r) lr rl tr =
     (offered r tr @ pending lr = reads_ok l tr \<and>
      offered l tr @ pending rl = reads_ok r tr)"

definition relay_ok :: "config \<Rightarrow> bool" where
  "relay_ok c =
     relay_at (localConn (proxy c)) (remoteConn (proxy c)) (pipeLR c) (pipeRL c) (trace c)"

fun taken_at ::
  "conn \<Rightarrow> conn option \<Rightarrow> pipe_task option \<Rightarrow> pipe_task option \<Rightarrow> event list \<Rightarrow> bool" where
  "taken_at l None lr rl tr = (io_events tr = [])"
| "taken_at l (Some r) lr rl tr =
     (prefix (accepted r tr) (concat (offered r tr)) \<and>
      prefix (accepted l tr) (concat (offered l tr)) \<and>
      (copying lr \<longrightarrow> accepted r tr = concat (offered r tr)) \<and>
      (copying rl \<longrightarrow> accepted l tr = concat (offered l tr)))"

definition taken_ok :: "config \<Rightarrow> bool" where
  "taken_ok c =
     taken_at (localConn (proxy c)) (remoteConn (proxy c)) (pipeLR c) (pipeRL c) (trace c)"

fun count_at ::
  "conn \<Rightarrow> conn option \<Rightarrow> pipe_task option \<Rightarrow> pipe_task option \<Rightarrow> uint64 \<Rightarrow> uint64
     \<Rightarrow> event list \<Rightarrow> bool" where
  "count_at l None lr rl s r tr = (s = 0 \<and> r = 0 \<and> io_events tr = [])"
| "count_at l (Some k) lr rl s r tr =
     (s + of_nat (uncounted lr) = of_nat (written_ok k tr) \<and>
      r + of_nat (uncounted rl) = of_nat (written_ok l tr))"

definition count_ok :: "config \<Rightarrow> bool" where
  "count_ok c =
     count_at (localConn (proxy c)) (remoteConn (proxy c)) (pipeLR c) (pipeRL c)
       (sentBytes (proxy c)) (receivedBytes (proxy c)) (trace c)"

fun sizes_ok :: "event list \<Rightarrow> bool" where
  "sizes_ok [] = True"
| "sizes_ok (ReadFrom k chunk eo # es) = (length chunk \<le> 65535 \<and> sizes_ok es)"
| "sizes_ok (WrittenTo k out m eo # es) =
     (length out \<le> 65535 \<and> m \<le> length out \<and> (eo = None \<longrightarrow> m = length out) \<and> sizes_ok es)"
| "sizes_ok (e # es) = sizes_ok es"

lemma sizes_ok_append [simp]: "sizes_ok (xs @ ys) = (sizes_ok xs \<and> sizes_ok ys)"
  by (induction xs rule: sizes_ok.induct) auto

lemma sizes_ok_close [simp]: "sizes_ok (close k eo)"
  by (auto simp: close_def split: option.splits)

lemma prefix_take_take: "m \<le> n \<Longrightarrow> prefix (take m xs) (take n xs)"
  by (metis min.absorb1 take_is_prefix take_take)

lemma sizes_step:
  assumes "step a c = Some c1" "shape_ok c" "sizes_ok (trace c)"
  shows "sizes_ok (trace c1)"
  using assms
  by (cases rule: stepE; cases "remoteConn (proxy c)"; cases "pipeLR c"; cases "pipeRL c")
     (auto simp: shape_ok_def task_ok_def)

lemma relay_step:
  assumes "step a c = Some c1" "shape_ok c" "relay_ok c"
  shows "relay_ok c1"
  using assms
  by (cases rule: stepE; cases "remoteConn (proxy c)"; cases "pipeLR c"; cases "pipeRL c")
     (auto simp: relay_ok_def shape_ok_def new_pipe_def no_io task_ok_def conn_neq)

lemma taken_step:
  assumes "step a c = Some c1" "shape_ok c" "taken_ok c"
  shows "taken_ok c1"
  using assms
  by (cases rule: stepE; cases "remoteConn (proxy c)"; cases "pipeLR c"; cases "pipeRL c")
     (auto simp: taken_ok_def shape_ok_def new_pipe_def no_io task_ok_def conn_neq prefix_take_take)

lemma count_step:
  assumes "step a c = Some c1" "shape_ok c" "count_ok c"
  shows "count_ok c1"
  using assms
  by (cases rule: stepE; cases "remoteConn (proxy c)"; cases "pipeLR c"; cases "pipeRL c")
     (auto simp: count_ok_def shape_ok_def new_pipe_def no_io task_ok_def conn_neq)

subsection \<open>Every run of a session\<close>

definition inv :: "config \<Rightarrow> bool" where
  "inv c =
     (shape_ok c \<and> signal_ok c \<and> teardown_ok c \<and> relay_ok c \<and> taken_ok c \<and> count_ok c \<and>
      sizes_ok (trace c))"

lemma inv_step:
  assumes "inv c" "step a c = Some c1"
  shows "inv c1"
proof -
  from assms(1) have w: "shape_ok c" and i: "signal_ok c" "teardown_ok c" "relay_ok c"
    "taken_ok c" "count_ok c" "sizes_ok (trace c)"
    by (simp_all add: inv_def)
  note s = assms(2)
  show ?thesis
    unfolding inv_def
    using shape_step [OF s w] signal_step [OF s w i(1)] teardown_step [OF s w i(2)]
      relay_step [OF s w i(3)] taken_step [OF s w i(4)] count_step [OF s w i(5)]
      sizes_step [OF s w i(6)]
    by simp
qed

lemma session_fields [simp]:
  "ident (session u i lconn laddr raddr addr) = i"
  "sentBytes (session u i lconn laddr raddr addr) = 0"
  "receivedBytes (session u i lconn laddr raddr addr) = 0"
  "localAddr (session u i lconn laddr raddr addr) = laddr"
  "remoteAddr (session u i lconn laddr raddr addr) = raddr"
  "localConn (session u i lconn laddr raddr addr) = lconn"
  "remoteConn (session u i lconn laddr raddr addr) = None"
  "erred (session u i lconn laddr raddr addr) = False"
  "tlsUnwrap (session u i lconn laddr raddr addr) = u"
  "remote_target (session u i lconn laddr raddr addr) = (if u then DialTLS addr else DialTCP raddr)"
  by (simp_all add: session_def New_def NewTLSUnwrapped_def remote_target_def)

lemma inv_initial: "inv (initial (session u i lconn laddr raddr addr))"
  by (simp add: inv_def shape_ok_def signal_ok_def signalled_def teardown_ok_def relay_ok_def
        taken_ok_def count_ok_def initial_def)

lemma frozen_run: "run as c = Some c1 \<Longrightarrow> frozen (proxy c1) = frozen (proxy c)"
proof (induction as arbitrary: c)
  case Nil
  then show ?case by simp
next
  case (Cons a as)
  then obtain c2 where s: "step a c = Some c2" and r: "run as c2 = Some c1"
    by (auto split: option.splits)
  from Cons.IH [OF r] frozen_step [OF s] show ?case by simp
qed

lemma frozen_fields:
  assumes "frozen q = frozen p"
  shows "ident q = ident p" "localAddr q = localAddr p" "remoteAddr q = remoteAddr p"
    "localConn q = localConn p" "tlsUnwrap q = tlsUnwrap p" "tlsAddress q = tlsAddress p"
proof -
  have "ident (frozen q) = ident (frozen p)" "localAddr (frozen q) = localAddr (frozen p)"
    "remoteAddr (frozen q) = remoteAddr (frozen p)" "localConn (frozen q) = localConn (frozen p)"
    "tlsUnwrap (frozen q) = tlsUnwrap (frozen p)" "tlsAddress (frozen q) = tlsAddress (frozen p)"
    using assms by simp_all
  then show "ident q = ident p" "localAddr q = localAddr p" "remoteAddr q = remoteAddr p"
    "localConn q = localConn p" "tlsUnwrap q = tlsUnwrap p" "tlsAddress q = tlsAddress p"
    by (simp_all add: frozen_def)
qed

text \<open>
  In every run of a session that \<^verbatim>\<open>main\<close> starts the invariants hold, and the fields
  of the struct that no statement assigns keep their values.
\<close>

lemma session_run:
  assumes "run sched (initial (session u i lconn laddr raddr addr)) = Some c"
  shows "inv c" "ident (proxy c) = i" "localAddr (proxy c) = laddr"
    "remoteAddr (proxy c) = raddr" "localConn (proxy c) = lconn" "tlsUnwrap (proxy c) = u"
proof -
  show "inv c"
    using run_invariant [of inv, OF inv_step inv_initial assms] .
  from frozen_run [OF assms]
  have "frozen (proxy c) = frozen (session u i lconn laddr raddr addr)"
    by (simp add: initial_def)
  from frozen_fields [OF this]
  show "ident (proxy c) = i" "localAddr (proxy c) = laddr"
    "remoteAddr (proxy c) = raddr" "localConn (proxy c) = lconn" "tlsUnwrap (proxy c) = u"
    by simp_all
qed

subsection \<open>A session used for the concrete runs\<close>

definition client :: conn where
  "client = \<lparr>conn_ptr = 1, RemoteAddr = TCPAddr ''192.0.2.7:50000''\<rparr>"

definition server :: conn where
  "server = \<lparr>conn_ptr = 2, RemoteAddr = TCPAddr ''198.51.100.1:636''\<rparr>"

definition demo :: Proxy where
  "demo = session False 1 client (TCPAddr ''0.0.0.0:6360'') (TCPAddr ''198.51.100.1:636'') []"

text \<open>
  The dial succeeds, the three tasks are started, and the pipe from the client reads
  three bytes and writes them to the server.
\<close>

definition opened :: "action list" where
  "opened = [(Main, DialResult (Inr server)), (Main, Step), (Main, Step), (Main, Step),
             (Main, Step), (PipeLR, Step), (PipeRL, Step), (Stats, Step)]"

definition relayed3 :: "action list" where
  "relayed3 = opened @ [(PipeLR, ReadResult [1, 2, 3] None), (PipeLR, WriteResult 3 None),
                        (PipeLR, Step)]"

lemmas run_simps = initial_def demo_def client_def server_def session_def New_def
  NewTLSUnwrapped_def emit_def new_pipe_def new_stats_def Let_def remote_target_def
  close_def after_defer_def opened_def relayed3_def

text \<open>A session under the flag \<^verbatim>\<open>-tls\<close>, and further runs of the two sessions.\<close>

definition demo_tls :: Proxy where
  "demo_tls = session True 2 client (TCPAddr ''0.0.0.0:6360'') (TCPAddr ''198.51.100.1:636'')
                ''ldap.example.test:636''"

text \<open>After the three bytes, the server answers with two bytes, which go to the client.\<close>

definition echoed :: "action list" where
  "echoed = relayed3 @ [(PipeRL, ReadResult [4, 5] None), (PipeRL, WriteResult 2 None),
                        (PipeRL, Step)]"

text \<open>
  After the three bytes the client closes: the pipe from the client reads the end of the
  stream and hands the termination signal to \<^verbatim>\<open>Start\<close>.
\<close>

definition stopping :: "action list" where
  "stopping = relayed3 @ [(PipeLR, ReadResult [] (Some EOF)), (PipeLR, Step), (PipeLR, Step)]"

text \<open>
  A whole session: bytes go both ways, the client closes, the session is torn down, and
  the pipe from the server ends on its closed connection.
\<close>

definition closed_down :: "action list" where
  "closed_down = echoed @
     [(PipeLR, ReadResult [] (Some EOF)), (PipeLR, Step), (PipeLR, Step), (PipeLR, Step),
      (Main, Step), (Stats, Step), (Main, Step), (Main, CloseResult None),
      (Main, CloseResult None),
      (PipeRL, ReadResult [] (Some (Failure ''use of closed network connection''))),
      (PipeRL, Step)]"

lemmas more_runs = demo_tls_def echoed_def stopping_def closed_down_def

subsection \<open>What the shape gives for a pipe, and one round of its loop\<close>

lemma pipe_of_set_pipe [simp]:
  "d = PipeLR \<or> d = PipeRL \<Longrightarrow> pipe_of d (set_pipe d t c) = Some t"
  by auto

lemma pipe_of_emit [simp]: "pipe_of d (emit es c) = pipe_of d c"
  by (cases d) simp_all

lemma pipe_shape:
  assumes "shape_ok c" "pipe_of d c = Some t"
  shows "\<exists>rconn. remoteConn (proxy c) = Some rconn \<and>
    conn_ptr rconn \<noteq> conn_ptr (localConn (proxy c)) \<and>
    (d = PipeLR \<or> d = PipeRL) \<and>
    src t = (if d = PipeLR then localConn (proxy c) else rconn) \<and>
    dst t = (if d = PipeLR then rconn else localConn (proxy c)) \<and>
    (ppc t \<noteq> PStart \<longrightarrow> isLocal t = (d = PipeLR) \<and> length (buff t) = 65535)"
  using assms
  by (cases d; cases "remoteConn (proxy c)") (auto simp: shape_ok_def task_ok_def)

text \<open>
  One round of the loop of \<^verbatim>\<open>pipe\<close>: a read that returns \<open>chunk\<close> without an error, the
  write of it, which the destination takes whole, and the addition to the counter.
\<close>

lemma pipe_round:
  assumes "shape_ok c" "pipe_of d c = Some t" "ppc t = PRead" "length chunk \<le> 65535"
  shows "run [(d, ReadResult chunk None), (d, WriteResult (length chunk) None), (d, Step)] c =
     Some (set_pipe d (t\<lparr>buff := chunk @ drop (length chunk) (buff t), ppc := PRead\<rparr>)
            ((emit [ReadFrom (src t) chunk None, WrittenTo (dst t) chunk (length chunk) None] c)
               \<lparr>proxy := (if d = PipeLR
                           then (proxy c)\<lparr>sentBytes := sentBytes (proxy c) + of_nat (length chunk)\<rparr>
                           else (proxy c)\<lparr>receivedBytes :=
                                   receivedBytes (proxy c) + of_nat (length chunk)\<rparr>)\<rparr>))"
proof -
  from pipe_shape [OF assms(1,2)] assms(3)
  have d: "d = PipeLR \<or> d = PipeRL"
    and t: "isLocal t = (d = PipeLR)" "length (buff t) = 65535"
    by auto
  from d show ?thesis
  proof
    assume "d = PipeLR"
    with assms(2-4) t show ?thesis
      by (simp add: Let_def emit_def)
  next
    assume "d = PipeRL"
    with assms(2-4) t show ?thesis
      by (simp add: Let_def emit_def)
  qed
qed

text \<open>The slices of the \<^verbatim>\<open>Write\<close> calls on \<open>k\<close> that returned no error.\<close>

fun relayed :: "conn \<Rightarrow> event list \<Rightarrow> byte list list" where
  "relayed k [] = []"
| "relayed k (WrittenTo k1 out m eo # es) =
     (if k1 = k \<and> eo = None then out # relayed k es else relayed k es)"
| "relayed k (e # es) = relayed k es"

lemma relayed_append [simp]: "relayed k (xs @ ys) = relayed k xs @ relayed k ys"
  by (induction k xs rule: relayed.induct) auto

lemma written_ok_relayed:
  "sizes_ok tr \<Longrightarrow> written_ok k tr = length (concat (relayed k tr))"
  by (induction k tr rule: relayed.induct) auto

lemma sent_step:
  assumes "step a c = Some c1" "shape_ok c"
  shows "sentBytes (proxy c1) =
           (if a = (PipeLR, Step) then sentBytes (proxy c) + of_nat (uncounted (pipeLR c))
            else sentBytes (proxy c))"
  using assms
  by (cases rule: stepE; cases "remoteConn (proxy c)"; cases "pipeRL c")
     (auto simp: shape_ok_def task_ok_def)

lemma received_step:
  assumes "step a c = Some c1" "shape_ok c"
  shows "receivedBytes (proxy c1) =
           (if a = (PipeRL, Step) then receivedBytes (proxy c) + of_nat (uncounted (pipeRL c))
            else receivedBytes (proxy c))"
  using assms
  by (cases rule: stepE; cases "remoteConn (proxy c)"; cases "pipeLR c")
     (auto simp: shape_ok_def task_ok_def)

section \<open>The claims\<close>

subsection \<open>One termination signal\<close>










subsection \<open>What a pipe writes\<close>

text \<open>
  A pipe that has left its loop hands nothing more to \<^verbatim>\<open>Write\<close>: what its destination \<open>k\<close>
  was offered and what it took stay as they are.
\<close>

definition writes_no_more :: "task \<Rightarrow> conn \<Rightarrow> byte list list \<Rightarrow> byte list \<Rightarrow> config \<Rightarrow> bool" where
  "writes_no_more d k os acc c =
     (shape_ok c \<and>
      (if d = PipeLR then \<not> copying (pipeLR c) \<and> remoteConn (proxy c) = Some k
       else \<not> copying (pipeRL c) \<and> pipeRL c \<noteq> None \<and> localConn (proxy c) = k) \<and>
      offered k (trace c) = os \<and> accepted k (trace c) = acc)"

lemma writes_no_more_step:
  assumes "writes_no_more d k os acc c" "step a c = Some c1"
  shows "writes_no_more d k os acc c1"
proof -
  from assms(1) have w: "shape_ok c" by (simp add: writes_no_more_def)
  from assms(2) w assms(1)
  have "(if d = PipeLR then \<not> copying (pipeLR c1) \<and> remoteConn (proxy c1) = Some k
       else \<not> copying (pipeRL c1) \<and> pipeRL c1 \<noteq> None \<and> localConn (proxy c1) = k) \<and>
      offered k (trace c1) = os \<and> accepted k (trace c1) = acc"
    by (cases rule: stepE; cases "remoteConn (proxy c)"; cases "pipeLR c"; cases "pipeRL c")
       (auto simp: writes_no_more_def shape_ok_def task_ok_def conn_neq no_io split: if_splits)
  with shape_step [OF assms(2) w] show ?thesis by (simp add: writes_no_more_def)
qed

text \<open>
  C2 does not hold of the code. When \<^verbatim>\<open>Read\<close> returns bytes together with an error (as
  \<^verbatim>\<open>tls.Conn.Read\<close> does with the last bytes before the end of the stream), \<^verbatim>\<open>pipe\<close>
  looks at the error first and returns through \<^verbatim>\<open>err\<close>: the bytes are in the buffer, the
  read is in the trace, and in every continuation of the run nothing more is handed to
  \<^verbatim>\<open>Write\<close> on the destination, which so never receives them.
\<close>

theorem bytes_read_with_an_error_are_dropped:
  assumes "run sched (initial (session u i lconn laddr raddr addr)) = Some c"
    and "pipe_of d c = Some t" and "ppc t = PRead" and "length chunk \<le> 65535"
  shows "step (d, ReadResult chunk (Some e)) c =
           Some (set_pipe d (t\<lparr>buff := chunk @ drop (length chunk) (buff t),
                                 ppc := InErr (ErrCheck read_failed e)\<rparr>)
                  (emit [ReadFrom (src t) chunk (Some e)] c)) \<and>
         (\<forall>rest c2. run ((d, ReadResult chunk (Some e)) # rest) c = Some c2 \<longrightarrow>
            offered (dst t) (trace c2) = offered (dst t) (trace c) \<and>
            accepted (dst t) (trace c2) = accepted (dst t) (trace c) \<and>
            ReadFrom (src t) chunk (Some e) \<in> set (trace c2))"
proof -
  note r = session_run [OF assms(1)]
  from r(1) have w: "shape_ok c" by (simp add: inv_def)
  from pipe_shape [OF w assms(2)] assms(3) r(5)
  obtain rconn where rc: "remoteConn (proxy c) = Some rconn"
    and d: "d = PipeLR \<or> d = PipeRL"
    and sd: "src t = (if d = PipeLR then lconn else rconn)"
      "dst t = (if d = PipeLR then rconn else lconn)"
    and len: "length (buff t) = 65535"
    by auto
  let ?c1 = "set_pipe d (t\<lparr>buff := chunk @ drop (length chunk) (buff t),
                                 ppc := InErr (ErrCheck read_failed e)\<rparr>)
                  (emit [ReadFrom (src t) chunk (Some e)] c)"
  have s: "step (d, ReadResult chunk (Some e)) c = Some ?c1"
    using d assms(2-4) len by (auto simp: Let_def)
  have q: "writes_no_more d (dst t) (offered (dst t) (trace c)) (accepted (dst t) (trace c)) ?c1"
    using shape_step [OF s w] d rc sd r(5) assms(2) by (auto simp: writes_no_more_def)
  have tr: "trace c2 = trace ?c1 @ es \<Longrightarrow> ReadFrom (src t) chunk (Some e) \<in> set (trace c2)"
    for c2 :: config and es
    using d by auto
  have grows: "\<exists>es. trace c2 = trace c0 @ es" if "run rest c0 = Some c2" for rest c0 c2
    using that
  proof (induction rest arbitrary: c0)
    case Nil
    then show ?case by simp
  next
    case (Cons a as)
    then obtain c3 where s3: "step a c0 = Some c3" and r3: "run as c3 = Some c2"
      by (auto split: option.splits)
    from s3 have "\<exists>es. trace c3 = trace c0 @ es"
      by (cases rule: stepE) (auto simp: emit_def)
    with Cons.IH [OF r3] show ?case by auto
  qed
  have rest: "offered (dst t) (trace c2) = offered (dst t) (trace c) \<and>
            accepted (dst t) (trace c2) = accepted (dst t) (trace c) \<and>
            ReadFrom (src t) chunk (Some e) \<in> set (trace c2)"
    if "run ((d, ReadResult chunk (Some e)) # rest) c = Some c2" for rest c2
  proof -
    from that s have r2: "run rest ?c1 = Some c2"
      by (simp del: step.simps)
    from run_invariant [of "writes_no_more d (dst t) (offered (dst t) (trace c))
        (accepted (dst t) (trace c))", OF writes_no_more_step q r2]
    have "writes_no_more d (dst t) (offered (dst t) (trace c)) (accepted (dst t) (trace c)) c2" .
    moreover from grows [OF r2] tr have "ReadFrom (src t) chunk (Some e) \<in> set (trace c2)"
      by blast
    ultimately show ?thesis by (simp add: writes_no_more_def)
  qed
  from s rest show ?thesis by blast
qed

text \<open>
  Under \<^verbatim>\<open>-tls\<close> the server sends two bytes and closes: the read on the TLS connection
  returns the two bytes with the end of the stream. The session is torn down.
\<close>

definition last_bytes :: "action list" where
  "last_bytes =
     [(PipeRL, Step), (PipeRL, Step), (PipeRL, Step), (Main, Step), (Stats, Step), (Main, Step),
      (Main, CloseResult None), (Main, CloseResult None),
      (PipeLR, ReadResult [] (Some (Failure ''use of closed network connection''))),
      (PipeLR, Step)]"

theorem bytes_read_with_an_error_are_dropped_witness:
  "(case run opened (initial demo_tls) of
      None \<Rightarrow> False
    | Some c \<Rightarrow>
        (case run ((PipeRL, ReadResult [4, 5] (Some EOF)) # last_bytes) c of
           None \<Rightarrow> False
         | Some c2 \<Rightarrow>
             mpc c2 = MExit \<and> map_option ppc (pipeLR c2) = Some PReturn \<and>
             map_option ppc (pipeRL c2) = Some PReturn \<and>
             ReadFrom server [4, 5] (Some EOF) \<in> set (trace c2) \<and>
             offered client (trace c2) = [] \<and> accepted client (trace c2) = [] \<and>
             logged (trace c2) =
               [Opened 2 ''0.0.0.0:6360'' ''198.51.100.1:636'', Closed 2 0 0]))"
proof -
  define c where "c = the (run opened (initial demo_tls))"
  define t where "t = the (pipeRL c)"
  define c2 where "c2 = the (run ((PipeRL, ReadResult [4, 5] (Some EOF)) # last_bytes) c)"
  have c: "run opened (initial demo_tls) = Some c"
    unfolding c_def by (simp add: run_simps more_runs)
  have t: "pipe_of PipeRL c = Some t" "ppc t = PRead" "src t = server" "dst t = client"
    "offered client (trace c) = []" "accepted client (trace c) = []"
    unfolding t_def c_def by (simp_all add: run_simps more_runs)
  have c2: "run ((PipeRL, ReadResult [4, 5] (Some EOF)) # last_bytes) c = Some c2"
    unfolding c2_def c_def by (simp add: run_simps more_runs last_bytes_def read_failed_def)
  have f: "mpc c2 = MExit" "map_option ppc (pipeLR c2) = Some PReturn"
    "map_option ppc (pipeRL c2) = Some PReturn"
    "logged (trace c2) = [Opened 2 ''0.0.0.0:6360'' ''198.51.100.1:636'', Closed 2 0 0]"
    unfolding c2_def c_def by (simp_all add: run_simps more_runs last_bytes_def read_failed_def)
  from c have c0: "run opened (initial (session True 2 client (TCPAddr ''0.0.0.0:6360'')
      (TCPAddr ''198.51.100.1:636'') ''ldap.example.test:636'')) = Some c"
    by (simp only: demo_tls_def)
  have l: "length [4, 5 :: byte] \<le> 65535"
    by simp
  from bytes_read_with_an_error_are_dropped [OF c0 t(1,2) l, of EOF, THEN conjunct2, rule_format,
      OF c2] t
  have "offered client (trace c2) = []" "accepted client (trace c2) = []"
    "ReadFrom server [4, 5] (Some EOF) \<in> set (trace c2)"
    by simp_all
  with c c2 f show ?thesis by (simp del: run.simps step.simps)
qed

subsection \<open>The byte counters\<close>

text \<open>
  The server sends three bytes; the pipe reads them, but the client has gone and the
  write to it fails. The session is torn down and every task has ended.
\<close>

definition lost_reply :: "action list" where
  "lost_reply = opened @
     [(PipeRL, ReadResult [7, 8, 9] None),
      (PipeRL, WriteResult 0 (Some (Failure ''broken pipe''))),
      (PipeRL, Step), (PipeRL, Step), (PipeRL, Step), (PipeRL, Step),
      (Main, Step), (Stats, Step), (Main, Step), (Main, CloseResult None),
      (Main, CloseResult None),
      (PipeLR, ReadResult [] (Some (Failure ''use of closed network connection''))),
      (PipeLR, Step)]"

text \<open>
  The server sends two bytes, which the client takes; the client closes, and \<^verbatim>\<open>Start\<close>
  logs the closing line before the pipe from the server has added the two bytes.
\<close>

definition late_count :: "action list" where
  "late_count = opened @
     [(PipeRL, ReadResult [4, 5] None), (PipeRL, WriteResult 2 None),
      (PipeLR, ReadResult [] (Some EOF)), (PipeLR, Step), (PipeLR, Step),
      (Main, Step), (Stats, Step), (Main, Step)]"

text \<open>
  C3 as stated fails: after the session has closed and both pipes have ended,
  \<^verbatim>\<open>receivedBytes\<close> is 0 although the remote peer sent three bytes, which the pipe read.
  And the closing line of a session can say 0 bytes received when two bytes from the remote
  peer have reached the client.
\<close>

theorem bytes_of_failed_write_uncounted_counterexample:
  "(case run lost_reply (initial demo) of
      None \<Rightarrow> False
    | Some c \<Rightarrow>
        mpc c = MExit \<and> map_option ppc (pipeLR c) = Some PReturn \<and>
        map_option ppc (pipeRL c) = Some PReturn \<and>
        reads_ok server (trace c) = [[7, 8, 9]] \<and> receivedBytes (proxy c) = 0) \<and>
   (case run late_count (initial demo) of
      None \<Rightarrow> False
    | Some c \<Rightarrow>
        accepted client (trace c) = [4, 5] \<and> last (logged (trace c)) = Closed 1 0 0)"
  by (simp add: run_simps lost_reply_def late_count_def read_failed_def write_failed_def)

text \<open>
  C3, as the code has it. \<^verbatim>\<open>sentBytes\<close> is changed only by the pipe from the local
  connection and \<^verbatim>\<open>receivedBytes\<close> only by the pipe from the remote connection, each in
  the step that follows a write without an error, by the count that write returned;
  that step is always taken, and a round of the loop (read, write, count) adds the
  length of the chunk. So each counter is, as a 64-bit number, the number of bytes of the
  error-free writes in its direction, less the count of a write not yet added: it is that
  number once the pipe has left its loop. Bytes whose write failed are not counted.
\<close>

theorem counters_count_error_free_writes:
  assumes "run sched (initial (session u i lconn laddr raddr addr)) = Some c"
  shows "(case remoteConn (proxy c) of
            None \<Rightarrow> sentBytes (proxy c) = 0 \<and> receivedBytes (proxy c) = 0
          | Some rconn \<Rightarrow>
              sentBytes (proxy c) + of_nat (uncounted (pipeLR c))
                = of_nat (length (concat (relayed rconn (trace c)))) \<and>
              receivedBytes (proxy c) + of_nat (uncounted (pipeRL c))
                = of_nat (length (concat (relayed lconn (trace c)))) \<and>
              (\<not> copying (pipeLR c) \<longrightarrow>
                 sentBytes (proxy c) = of_nat (length (concat (relayed rconn (trace c))))) \<and>
              (\<not> copying (pipeRL c) \<longrightarrow>
                 receivedBytes (proxy c) = of_nat (length (concat (relayed lconn (trace c))))) \<and>
              (uncounted (pipeLR c) = 0 \<and> length (concat (relayed rconn (trace c))) < 2 ^ 64 \<longrightarrow>
                 unat (sentBytes (proxy c)) = length (concat (relayed rconn (trace c)))) \<and>
              (uncounted (pipeRL c) = 0 \<and> length (concat (relayed lconn (trace c))) < 2 ^ 64 \<longrightarrow>
                 unat (receivedBytes (proxy c)) = length (concat (relayed lconn (trace c))))) \<and>
         (\<forall>a c1. step a c = Some c1 \<longrightarrow>
            sentBytes (proxy c1) =
              (if a = (PipeLR, Step) then sentBytes (proxy c) + of_nat (uncounted (pipeLR c))
               else sentBytes (proxy c)) \<and>
            receivedBytes (proxy c1) =
              (if a = (PipeRL, Step) then receivedBytes (proxy c) + of_nat (uncounted (pipeRL c))
               else receivedBytes (proxy c))) \<and>
         (\<forall>d t n. pipe_of d c = Some t \<and> ppc t = PCount n \<longrightarrow>
            step (d, Step) c =
              Some (set_pipe d (t\<lparr>ppc := PRead\<rparr>)
                     (c\<lparr>proxy := (if d = PipeLR
                                    then (proxy c)\<lparr>sentBytes := sentBytes (proxy c) + of_nat n\<rparr>
                                    else (proxy c)\<lparr>receivedBytes :=
                                           receivedBytes (proxy c) + of_nat n\<rparr>)\<rparr>))) \<and>
         (\<forall>d t chunk. pipe_of d c = Some t \<and> ppc t = PRead \<and> length chunk \<le> 65535 \<longrightarrow>
            run [(d, ReadResult chunk None), (d, WriteResult (length chunk) None), (d, Step)] c =
              Some (set_pipe d (t\<lparr>buff := chunk @ drop (length chunk) (buff t), ppc := PRead\<rparr>)
                     ((emit [ReadFrom (src t) chunk None,
                             WrittenTo (dst t) chunk (length chunk) None] c)
                        \<lparr>proxy := (if d = PipeLR
                                    then (proxy c)\<lparr>sentBytes :=
                                           sentBytes (proxy c) + of_nat (length chunk)\<rparr>
                                    else (proxy c)\<lparr>receivedBytes :=
                                           receivedBytes (proxy c) + of_nat (length chunk)\<rparr>)\<rparr>)))"
proof -
  note r = session_run [OF assms]
  from r(1) have w: "shape_ok c" and n: "count_ok c" and z: "sizes_ok (trace c)"
    by (simp_all add: inv_def)
  have un: "x < 2 ^ 64 \<Longrightarrow> unat (of_nat x :: uint64) = x" for x
    by (simp add: unat_of_nat take_bit_nat_eq_self)
  have idle: "\<not> copying p \<Longrightarrow> uncounted p = 0" for p
    by (cases p; cases "ppc (the p)") auto
  have one: "(case remoteConn (proxy c) of
            None \<Rightarrow> sentBytes (proxy c) = 0 \<and> receivedBytes (proxy c) = 0
          | Some rconn \<Rightarrow>
              sentBytes (proxy c) + of_nat (uncounted (pipeLR c))
                = of_nat (length (concat (relayed rconn (trace c)))) \<and>
              receivedBytes (proxy c) + of_nat (uncounted (pipeRL c))
                = of_nat (length (concat (relayed lconn (trace c)))) \<and>
              (\<not> copying (pipeLR c) \<longrightarrow>
                 sentBytes (proxy c) = of_nat (length (concat (relayed rconn (trace c))))) \<and>
              (\<not> copying (pipeRL c) \<longrightarrow>
                 receivedBytes (proxy c) = of_nat (length (concat (relayed lconn (trace c))))) \<and>
              (uncounted (pipeLR c) = 0 \<and> length (concat (relayed rconn (trace c))) < 2 ^ 64 \<longrightarrow>
                 unat (sentBytes (proxy c)) = length (concat (relayed rconn (trace c)))) \<and>
              (uncounted (pipeRL c) = 0 \<and> length (concat (relayed lconn (trace c))) < 2 ^ 64 \<longrightarrow>
                 unat (receivedBytes (proxy c)) = length (concat (relayed lconn (trace c)))))"
  proof (cases "remoteConn (proxy c)")
    case None
    with n show ?thesis by (simp add: count_ok_def)
  next
    case (Some rconn)
    with n r(5)
    have eq: "sentBytes (proxy c) + of_nat (uncounted (pipeLR c))
                = of_nat (length (concat (relayed rconn (trace c))))"
      "receivedBytes (proxy c) + of_nat (uncounted (pipeRL c))
                = of_nat (length (concat (relayed lconn (trace c))))"
      by (simp_all add: count_ok_def written_ok_relayed [OF z])
    with Some un idle show ?thesis by auto
  qed
  have two: "sentBytes (proxy c1) =
              (if a = (PipeLR, Step) then sentBytes (proxy c) + of_nat (uncounted (pipeLR c))
               else sentBytes (proxy c)) \<and>
            receivedBytes (proxy c1) =
              (if a = (PipeRL, Step) then receivedBytes (proxy c) + of_nat (uncounted (pipeRL c))
               else receivedBytes (proxy c))" if "step a c = Some c1" for a c1
    using sent_step [OF that w] received_step [OF that w] by simp
  have three: "step (d, Step) c =
              Some (set_pipe d (t\<lparr>ppc := PRead\<rparr>)
                     (c\<lparr>proxy := (if d = PipeLR
                                    then (proxy c)\<lparr>sentBytes := sentBytes (proxy c) + of_nat n\<rparr>
                                    else (proxy c)\<lparr>receivedBytes :=
                                           receivedBytes (proxy c) + of_nat n\<rparr>)\<rparr>))"
    if "pipe_of d c = Some t" "ppc t = PCount n" for d t n
  proof -
    from pipe_shape [OF w that(1)] that(2)
    have "d = PipeLR \<or> d = PipeRL" "isLocal t = (d = PipeLR)" by auto
    with that show ?thesis by (auto simp: Let_def)
  qed
  from one two three pipe_round [OF w] show ?thesis
    by (simp del: run.simps step.simps)
qed

theorem counters_count_error_free_writes_witness:
  "(case run closed_down (initial demo) of
      None \<Rightarrow> False
    | Some c \<Rightarrow>
        remoteConn (proxy c) = Some server \<and> \<not> copying (pipeLR c) \<and> \<not> copying (pipeRL c) \<and>
        relayed server (trace c) = [[1, 2, 3]] \<and> sentBytes (proxy c) = 3 \<and>
        relayed client (trace c) = [[4, 5]] \<and> receivedBytes (proxy c) = 2) \<and>
   (case run opened (initial demo_tls) of
      None \<Rightarrow> False
    | Some c \<Rightarrow>
        map_option ppc (pipeRL c) = Some PRead \<and>
        map_option (receivedBytes \<circ> proxy)
          (run [(PipeRL, ReadResult [4, 5] None), (PipeRL, WriteResult 2 None), (PipeRL, Step)] c)
        = Some 2)"
proof -
  define c where "c = the (run closed_down (initial demo))"
  have c: "run closed_down (initial demo) = Some c"
    unfolding c_def by (simp add: run_simps more_runs read_failed_def)
  have f: "remoteConn (proxy c) = Some server" "\<not> copying (pipeLR c)" "\<not> copying (pipeRL c)"
    "relayed server (trace c) = [[1, 2, 3]]" "relayed client (trace c) = [[4, 5]]"
    unfolding c_def by (simp_all add: run_simps more_runs read_failed_def)
  from counters_count_error_free_writes [of closed_down False 1 client "TCPAddr ''0.0.0.0:6360''"
      "TCPAddr ''198.51.100.1:636''" "[]" c] c f
  have one: "sentBytes (proxy c) = 3" "receivedBytes (proxy c) = 2"
    by (simp_all add: demo_def del: run.simps step.simps)
  define d where "d = the (run opened (initial demo_tls))"
  define t where "t = the (pipeRL d)"
  have d: "run opened (initial demo_tls) = Some d"
    unfolding d_def by (simp add: run_simps more_runs)
  have g: "pipe_of PipeRL d = Some t" "ppc t = PRead" "receivedBytes (proxy d) = 0"
    unfolding t_def d_def by (simp_all add: run_simps more_runs)
  from d have d1: "run opened (initial (session True 2 client (TCPAddr ''0.0.0.0:6360'')
      (TCPAddr ''198.51.100.1:636'') ''ldap.example.test:636'')) = Some d"
    by (simp only: demo_tls_def)
  from g have g1: "pipe_of PipeRL d = Some t \<and> ppc t = PRead \<and> length [4, 5 :: byte] \<le> 65535"
    by simp
  have l: "length [4, 5 :: byte] = 2"
    by simp
  note round = counters_count_error_free_writes [OF d1, THEN conjunct2, THEN conjunct2,
      THEN conjunct2, rule_format, OF g1, unfolded l]
  from round g have two: "map_option (receivedBytes \<circ> proxy)
          (run [(PipeRL, ReadResult [4, 5] None), (PipeRL, WriteResult 2 None), (PipeRL, Step)] d)
        = Some 2"
    by (simp del: run.simps step.simps)
  from c f one d g two show ?thesis
    by (simp del: run.simps step.simps)
qed

subsection \<open>The order of the steps of err\<close>

text \<open>
  The client closes after its three bytes: the pipe from the client hands the signal to
  \<^verbatim>\<open>Start\<close> (the run \<open>stopping\<close>), and before it comes to mark the session, \<^verbatim>\<open>Start\<close>
  stops the reporter, logs the closing line and closes both connections, the read of the
  other pipe fails on the closed connection, and that pipe calls \<^verbatim>\<open>err\<close>: the check
  passes and the failure is logged. Then the first pipe marks the session.
\<close>

definition late_failure :: "action list" where
  "late_failure = stopping @
     [(Main, Step), (Stats, Step), (Main, Step), (Main, CloseResult None),
      (Main, CloseResult None),
      (PipeRL, ReadResult [] (Some (Failure ''use of closed network connection''))),
      (PipeRL, Step), (PipeRL, Step), (PipeLR, Step)]"

lemma nothing_left:
  assumes "mpc c = MExit" "map_option ppc (pipeLR c) = Some PReturn"
    "map_option ppc (pipeRL c) = Some (InErr ErrSend)" "map_option spc (stats_t c) = Some SReturn"
  shows "step (d, r) c = None"
  using assms by (cases d; cases r) (auto split: option.splits)

text \<open>
  C4 does not hold of the code: \<^verbatim>\<open>err\<close> sends the termination signal first and marks the
  session only when the send has returned. When the signal has been received the session
  is not yet marked. A failure of the other pipe in that window passes the check: it is
  logged, after the closing line of the session, and the pipe then waits for ever in its
  send, for \<^verbatim>\<open>Start\<close> has returned: no task of the session has a step left.
\<close>

theorem signal_is_sent_before_the_mark:
  "(case run stopping (initial demo) of
      None \<Rightarrow> False
    | Some c \<Rightarrow>
        logged (trace c) = [Opened 1 ''0.0.0.0:6360'' ''198.51.100.1:636''] \<and>
        stops (trace c) = 1 \<and> mpc c = MSendDone \<and> erred (proxy c) = False \<and>
        map_option ppc (pipeLR c) = Some (InErr ErrMark)) \<and>
   (case run late_failure (initial demo) of
      None \<Rightarrow> False
    | Some c \<Rightarrow>
        logged (trace c) =
          [Opened 1 ''0.0.0.0:6360'' ''198.51.100.1:636'', Closed 1 3 0,
           Failed 1 read_failed (Failure ''use of closed network connection'')] \<and>
        stops (trace c) = 1 \<and> erred (proxy c) = True \<and> mpc c = MExit \<and>
        map_option ppc (pipeLR c) = Some PReturn \<and>
        map_option ppc (pipeRL c) = Some (InErr ErrSend) \<and>
        map_option spc (stats_t c) = Some SReturn \<and>
        (\<forall>d r. step (d, r) c = None))"
proof -
  define a where "a = the (run stopping (initial demo))"
  have a: "run stopping (initial demo) = Some a"
    unfolding a_def by (simp add: run_simps more_runs read_failed_def)
  have fa: "logged (trace a) = [Opened 1 ''0.0.0.0:6360'' ''198.51.100.1:636'']"
    "stops (trace a) = 1" "mpc a = MSendDone" "erred (proxy a) = False"
    "map_option ppc (pipeLR a) = Some (InErr ErrMark)"
    unfolding a_def by (simp_all add: run_simps more_runs read_failed_def)
  define c where "c = the (run late_failure (initial demo))"
  have c: "run late_failure (initial demo) = Some c"
    unfolding c_def by (simp add: run_simps more_runs late_failure_def read_failed_def)
  have fc: "logged (trace c) =
          [Opened 1 ''0.0.0.0:6360'' ''198.51.100.1:636'', Closed 1 3 0,
           Failed 1 read_failed (Failure ''use of closed network connection'')]"
    "stops (trace c) = 1" "erred (proxy c) = True" "mpc c = MExit"
    "map_option ppc (pipeLR c) = Some PReturn"
    "map_option ppc (pipeRL c) = Some (InErr ErrSend)"
    "map_option spc (stats_t c) = Some SReturn"
    unfolding c_def by (simp_all add: run_simps more_runs late_failure_def read_failed_def)
  from nothing_left [OF fc(4-7)] have "\<forall>d r. step (d, r) c = None"
    by blast
  with a fa c fc show ?thesis
    by (simp del: run.simps step.simps)
qed

subsection \<open>A failed dial\<close>

text \<open>
  A session whose dial has failed with \<open>e\<close>, after its two remaining steps; \<open>eo\<close> is what
  the close of the local connection returned. Nothing but the trace differs from the
  session as \<^verbatim>\<open>main\<close> made it.
\<close>

definition dial_failed :: "Proxy \<Rightarrow> error \<Rightarrow> error option \<Rightarrow> config" where
  "dial_failed p e eo =
     \<lparr>proxy = p, mpc = MExit, deferred = [], pipeLR = None, pipeRL = None, stats_t = None,
      trace = [Dialed (remote_target p) (Some e), Logged (RemoteConnectionFailed (ident p) e)]
                @ close (localConn p) eo\<rparr>"

lemma after_failed_dial:
  assumes "run ((Main, DialResult (Inl e)) # rest) (initial p) = Some c"
  shows "(\<exists>eo. prefix rest [(Main, Step), (Main, CloseResult eo)]) \<and>
         proxy c = p \<and> pipeLR c = None \<and> pipeRL c = None \<and> stats_t c = None"
proof -
  define c1 where "c1 = emit [Dialed (remote_target p) (Some e)]
      ((initial p)\<lparr>deferred := [localConn p], mpc := MLogFailed e\<rparr>)"
  define c2 where "c2 = emit [Logged (RemoteConnectionFailed (ident p) e)] (c1\<lparr>mpc := MReturn\<rparr>)"
  have s1: "step (Main, DialResult (Inl e)) (initial p) = Some c1"
    by (simp add: c1_def initial_def Let_def)
  have f1: "proxy c1 = p" "pipeLR c1 = None" "pipeRL c1 = None" "stats_t c1 = None"
    "mpc c1 = MLogFailed e" "deferred c1 = [localConn p]"
    by (simp_all add: c1_def initial_def)
  have f2: "proxy c2 = p" "pipeLR c2 = None" "pipeRL c2 = None" "stats_t c2 = None"
    "mpc c2 = MReturn" "deferred c2 = [localConn p]"
    by (simp_all add: c2_def f1)
  have n1: "a = (Main, Step) \<and> c3 = c2" if "step a c1 = Some c3" for a c3
  proof -
    obtain d r where a: "a = (d, r)" by (cases a)
    from that f1 show ?thesis
      unfolding a by (cases d; cases r) (auto simp: c2_def)
  qed
  have n2: "\<exists>eo. a = (Main, CloseResult eo) \<and> proxy c3 = p \<and> pipeLR c3 = None \<and>
      pipeRL c3 = None \<and> stats_t c3 = None \<and> mpc c3 = MExit" if "step a c2 = Some c3" for a c3
  proof -
    obtain d r where a: "a = (d, r)" by (cases a)
    from that f2 show ?thesis
      unfolding a by (cases d; cases r) (auto simp: Let_def after_defer_def)
  qed
  have n3: "step a c3 = None" if "pipeLR c3 = None" "pipeRL c3 = None" "stats_t c3 = None"
    "mpc c3 = MExit" for a c3
  proof -
    obtain d r where a: "a = (d, r)" by (cases a)
    from that show ?thesis
      unfolding a by (cases d; cases r) auto
  qed
  from assms s1 have r1: "run rest c1 = Some c"
    by (simp del: step.simps)
  show ?thesis
  proof (cases rest)
    case Nil
    with r1 f1 show ?thesis by simp
  next
    case (Cons a rest1)
    with r1 obtain c3 where "step a c1 = Some c3" and r2: "run rest1 c3 = Some c"
      by (auto split: option.splits)
    from n1 [OF this(1)] have a: "a = (Main, Step)" and c3: "c3 = c2"
      by simp_all
    show ?thesis
    proof (cases rest1)
      case Nil
      with r2 c3 f2 a Cons show ?thesis by simp
    next
      case (Cons b rest2)
      with r2 c3 obtain c4 where s4: "step b c2 = Some c4" and r3: "run rest2 c4 = Some c"
        by (auto split: option.splits)
      from n2 [OF s4] obtain eo where b: "b = (Main, CloseResult eo)"
        and f4: "proxy c4 = p" "pipeLR c4 = None" "pipeRL c4 = None" "stats_t c4 = None"
          "mpc c4 = MExit"
        by blast
      have "rest2 = []"
      proof (cases rest2)
        case Nil
        then show ?thesis .
      next
        case (Cons x xs)
        with r3 n3 [OF f4(2-5), of x] show ?thesis
          by (simp del: step.simps)
      qed
      with r3 f4 a b \<open>rest = a # rest1\<close> Cons show ?thesis
        by auto
    qed
  qed
qed

text \<open>
  C5 as stated fails: when the dial fails and the close of the local connection fails too,
  the log has two lines.
\<close>

theorem failed_dial_two_lines_counterexample:
  "(case run [(Main, DialResult (Inl (Failure ''connect: connection refused''))), (Main, Step),
              (Main, CloseResult (Some (Failure ''use of closed network connection'')))]
          (initial demo) of
      None \<Rightarrow> False
    | Some c \<Rightarrow>
        mpc c = MExit \<and>
        logged (trace c) =
          [RemoteConnectionFailed 1 (Failure ''connect: connection refused''),
           ErrorWhileClosing (Failure ''use of closed network connection'')])"
  by (simp add: run_simps)

text \<open>
  C5, as the code has it. When the dial fails, to the TLS address under \<^verbatim>\<open>-tls\<close> and to
  the resolved remote address otherwise, \<^verbatim>\<open>Start\<close> has exactly two steps left, which it
  takes: it logs the line of the failed connection and returns, and the deferred close
  closes the local connection. No other step of the session exists after the failed dial,
  so no pipe and no reporter is ever started and the struct stays as \<^verbatim>\<open>main\<close> made it,
  with both counters zero. The log is the one line of the failed connection, followed by a
  line for the close when the close returns an error.
\<close>

theorem failed_dial_tears_down:
  "run [(Main, DialResult (Inl e)), (Main, Step), (Main, CloseResult eo)]
       (initial (session u i lconn laddr raddr addr))
     = Some (dial_failed (session u i lconn laddr raddr addr) e eo) \<and>
   (\<forall>rest c. run ((Main, DialResult (Inl e)) # rest) (initial (session u i lconn laddr raddr addr))
                = Some c \<longrightarrow>
      (\<exists>eo1. prefix rest [(Main, Step), (Main, CloseResult eo1)]) \<and>
      pipeLR c = None \<and> pipeRL c = None \<and> stats_t c = None \<and>
      proxy c = session u i lconn laddr raddr addr \<and>
      sentBytes (proxy c) = 0 \<and> receivedBytes (proxy c) = 0 \<and> remoteConn (proxy c) = None) \<and>
   (\<forall>a. step a (dial_failed (session u i lconn laddr raddr addr) e eo) = None) \<and>
   io_events (trace (dial_failed (session u i lconn laddr raddr addr) e eo)) = [] \<and>
   trace (dial_failed (session u i lconn laddr raddr addr) e eo) =
     [Dialed (if u then DialTLS addr else DialTCP raddr) (Some e),
      Logged (RemoteConnectionFailed i e), ClosedConn lconn eo]
     @ (case eo of None \<Rightarrow> [] | Some e1 \<Rightarrow> [Logged (ErrorWhileClosing e1)])"
proof -
  let ?p = "session u i lconn laddr raddr addr"
  have one: "run [(Main, DialResult (Inl e)), (Main, Step), (Main, CloseResult eo)] (initial ?p)
     = Some (dial_failed ?p e eo)"
    by (simp add: dial_failed_def initial_def emit_def Let_def after_defer_def)
  have two: "(\<exists>eo1. prefix rest [(Main, Step), (Main, CloseResult eo1)]) \<and>
      pipeLR c = None \<and> pipeRL c = None \<and> stats_t c = None \<and> proxy c = ?p \<and>
      sentBytes (proxy c) = 0 \<and> receivedBytes (proxy c) = 0 \<and> remoteConn (proxy c) = None"
    if "run ((Main, DialResult (Inl e)) # rest) (initial ?p) = Some c" for rest c
    using after_failed_dial [OF that] by simp
  have three: "step a (dial_failed ?p e eo) = None" for a
  proof -
    obtain d r where a: "a = (d, r)" by (cases a)
    show ?thesis
      unfolding a by (cases d; cases r) (auto simp: dial_failed_def)
  qed
  have four: "io_events (trace (dial_failed ?p e eo)) = []"
    "trace (dial_failed ?p e eo) =
     [Dialed (if u then DialTLS addr else DialTCP raddr) (Some e),
      Logged (RemoteConnectionFailed i e), ClosedConn lconn eo]
     @ (case eo of None \<Rightarrow> [] | Some e1 \<Rightarrow> [Logged (ErrorWhileClosing e1)])"
    by (simp_all add: dial_failed_def close_def split: option.splits)
  from one two three four show ?thesis
    by (simp del: run.simps step.simps)
qed

theorem failed_dial_tears_down_witness:
  "(case run [(Main, DialResult (Inl (Failure ''connect: connection refused''))), (Main, Step),
              (Main, CloseResult None)] (initial demo_tls) of
      None \<Rightarrow> False
    | Some c \<Rightarrow>
        trace c = [Dialed (DialTLS ''ldap.example.test:636'')
                     (Some (Failure ''connect: connection refused'')),
                   Logged (RemoteConnectionFailed 2 (Failure ''connect: connection refused'')),
                   ClosedConn client None] \<and>
        mpc c = MExit \<and> pipeLR c = None \<and> pipeRL c = None \<and> stats_t c = None \<and>
        sentBytes (proxy c) = 0 \<and> receivedBytes (proxy c) = 0 \<and> remoteConn (proxy c) = None \<and>
        step (Main, Step) c = None) \<and>
   run [(Main, DialResult (Inl (Failure ''connect: connection refused''))), (Main, Step),
        (PipeLR, Step)] (initial demo) = None"
proof -
  let ?e = "Failure ''connect: connection refused''"
  note tls = failed_dial_tears_down [of ?e None True 2 client "TCPAddr ''0.0.0.0:6360''"
      "TCPAddr ''198.51.100.1:636''" "''ldap.example.test:636''", folded demo_tls_def]
  note plain = failed_dial_tears_down [of ?e None False 1 client "TCPAddr ''0.0.0.0:6360''"
      "TCPAddr ''198.51.100.1:636''" "[]", folded demo_def]
  define c where "c = dial_failed demo_tls ?e None"
  from tls have r: "run [(Main, DialResult (Inl ?e)), (Main, Step), (Main, CloseResult None)]
      (initial demo_tls) = Some c"
    unfolding c_def by (simp del: run.simps step.simps)
  from tls [THEN conjunct2, THEN conjunct1, rule_format, OF r [unfolded c_def]]
  have f: "pipeLR c = None" "pipeRL c = None" "stats_t c = None"
    "sentBytes (proxy c) = 0" "receivedBytes (proxy c) = 0" "remoteConn (proxy c) = None"
    unfolding c_def by blast+
  from tls have n: "step (Main, Step) c = None"
    and t: "trace c = [Dialed (DialTLS ''ldap.example.test:636'') (Some ?e),
                   Logged (RemoteConnectionFailed 2 ?e), ClosedConn client None]"
    unfolding c_def by (simp_all del: run.simps step.simps)
  have m: "mpc c = MExit"
    by (simp add: c_def dial_failed_def)
  have "run [(Main, DialResult (Inl ?e)), (Main, Step), (PipeLR, Step)] (initial demo) = None"
  proof (cases "run [(Main, DialResult (Inl ?e)), (Main, Step), (PipeLR, Step)] (initial demo)")
    case None
    then show ?thesis .
  next
    case (Some c3)
    from plain [THEN conjunct2, THEN conjunct1, rule_format, OF Some]
    have "\<exists>eo1. prefix [(Main, Step), (PipeLR, Step)] [(Main, Step), (Main, CloseResult eo1)]"
      by blast
    then show ?thesis by simp
  qed
  with r f n t m show ?thesis
    by (simp del: run.simps step.simps)
qed

subsection \<open>The traffic reporter\<close>

lemma shape_ticker:
  assumes "shape_ok c" "stats_t c = Some t"
  shows "ticker t = (if spc t = SStart \<or> spc t = SReturn then None else Some 30)"
  using assms by (cases "remoteConn (proxy c)") (auto simp: shape_ok_def)

lemma config_same_stats: "stats_t c = Some t \<Longrightarrow> c\<lparr>stats_t := Some t\<rparr> = c"
  by (cases c) auto

text \<open>The traffic lines of the log.\<close>

fun traffic :: "event list \<Rightarrow> logline list" where
  "traffic [] = []"
| "traffic (Logged (Traffic i s r) # es) = Traffic i s r # traffic es"
| "traffic (e # es) = traffic es"

lemma traffic_append [simp]: "traffic (xs @ ys) = traffic xs @ traffic ys"
  by (induction xs rule: traffic.induct) auto

lemma traffic_close [simp]: "traffic (close k eo) = []"
  by (auto simp: close_def split: option.splits)

lemma traffic_step:
  assumes "step a c = Some c1"
  shows "traffic (trace c1) = traffic (trace c) @
           (if a = (Stats, Step) \<and> map_option spc (stats_t c) = Some SLog
            then [Traffic (ident (proxy c)) (sentBytes (proxy c)) (receivedBytes (proxy c))]
            else [])"
  using assms by (cases rule: stepE) auto

text \<open>
  Three bytes have gone to the server when the timer ticks. The reporter compares and
  logs the line with 3 and 0. Before it takes its new snapshot the pipe relays five more
  bytes, so the snapshot is 8. At the next tick the counter equals the snapshot.
\<close>

definition racing_tick :: "action list" where
  "racing_tick = relayed3 @
     [(Stats, Tick), (Stats, Step), (Stats, Step),
      (PipeLR, ReadResult [6, 7, 8, 9, 10] None), (PipeLR, WriteResult 5 None), (PipeLR, Step),
      (Stats, Step), (Stats, Tick), (Stats, Step)]"

text \<open>
  C6 as stated fails: at the second tick \<^verbatim>\<open>sentBytes\<close> is 8, which differs from the 3 that
  the reporter observed at the first tick and logged, yet the second tick logs nothing: the
  only traffic line of the session says 3.
\<close>

theorem change_never_reported_counterexample:
  "(case run racing_tick (initial demo) of
      None \<Rightarrow> False
    | Some c \<Rightarrow>
        traffic (trace c) = [Traffic 1 3 0] \<and> sentBytes (proxy c) = 8 \<and>
        map_option prevSent (stats_t c) = Some 8 \<and>
        map_option spc (stats_t c) = Some SSelect)"
  by (simp add: run_simps racing_tick_def)

text \<open>
  C6, as the code has it. After a successful dial, under \<^verbatim>\<open>-tls\<close> or not, \<^verbatim>\<open>Start\<close>
  launches the reporter once the two pipes are launched. The reporter first starts a timer of period 30 seconds and takes the snapshot
  (0, 0); then it waits in its \<^verbatim>\<open>select\<close>, where it takes a tick or, once \<^verbatim>\<open>Start\<close>
  has the termination signal, the stop, and nothing else. After a tick it compares the two
  counters, as they are then, with its snapshot: when both are the same it waits again; when
  one differs it logs one line with the two counters as they are when it logs, and then
  takes the two counters as they are at that later moment as its snapshot. On the stop it
  stops the timer and returns. Traffic lines are logged by that one statement only. A tick
  that no step of a pipe interleaves with logs the counters of the tick and makes them the
  snapshot; a change between the logging and the snapshot is not reported by a later tick.
\<close>

theorem reporter_steps:
  assumes "run sched (initial (session u i lconn laddr raddr addr)) = Some c"
  shows "(case stats_t c of
            None \<Rightarrow>
              (mpc c = MGoStats \<longrightarrow>
                 step (Main, Step) c =
                   Some (c\<lparr>stats_t := Some \<lparr>ticker = None, prevSent = 0, prevReceived = 0,
                                              spc = SStart\<rparr>, mpc := MWait\<rparr>))
          | Some t \<Rightarrow>
              (case spc t of
                 SStart \<Rightarrow>
                   step (Stats, Step) c =
                     Some (c\<lparr>stats_t := Some (t\<lparr>ticker := Some 30, prevSent := 0,
                                                 prevReceived := 0, spc := SSelect\<rparr>)\<rparr>)
               | SSelect \<Rightarrow>
                   ticker t = Some 30 \<and>
                   step (Stats, Tick) c = Some (c\<lparr>stats_t := Some (t\<lparr>spc := SCompare\<rparr>)\<rparr>) \<and>
                   step (Stats, Step) c = None \<and>
                   (mpc c = MSendDone \<longrightarrow>
                      step (Main, Step) c =
                        Some ((emit [DoneSignal] c)
                               \<lparr>stats_t := Some (t\<lparr>spc := SStop\<rparr>), mpc := MLogClosed\<rparr>)) \<and>
                   (if prevSent t \<noteq> sentBytes (proxy c) \<or> prevReceived t \<noteq> receivedBytes (proxy c)
                    then run [(Stats, Tick), (Stats, Step), (Stats, Step), (Stats, Step)] c =
                           Some ((emit [Logged (Traffic i (sentBytes (proxy c))
                                                  (receivedBytes (proxy c)))] c)
                                  \<lparr>stats_t := Some (t\<lparr>prevSent := sentBytes (proxy c),
                                                        prevReceived := receivedBytes (proxy c)\<rparr>)\<rparr>)
                    else run [(Stats, Tick), (Stats, Step)] c = Some c)
               | SCompare \<Rightarrow>
                   step (Stats, Step) c =
                     Some (c\<lparr>stats_t := Some (t\<lparr>spc :=
                              (if prevSent t \<noteq> sentBytes (proxy c) \<or>
                                  prevReceived t \<noteq> receivedBytes (proxy c)
                               then SLog else SSelect)\<rparr>)\<rparr>)
               | SLog \<Rightarrow>
                   step (Stats, Step) c =
                     Some ((emit [Logged (Traffic i (sentBytes (proxy c))
                                            (receivedBytes (proxy c)))] c)
                            \<lparr>stats_t := Some (t\<lparr>spc := SUpdate\<rparr>)\<rparr>)
               | SUpdate \<Rightarrow>
                   step (Stats, Step) c =
                     Some (c\<lparr>stats_t := Some (t\<lparr>prevSent := sentBytes (proxy c),
                                                 prevReceived := receivedBytes (proxy c),
                                                 spc := SSelect\<rparr>)\<rparr>)
               | SStop \<Rightarrow>
                   step (Stats, Step) c =
                     Some (c\<lparr>stats_t := Some (t\<lparr>ticker := None, spc := SReturn\<rparr>)\<rparr>)
               | SReturn \<Rightarrow> ticker t = None \<and> (\<forall>r. step (Stats, r) c = None))) \<and>
         (\<forall>a c1. step a c = Some c1 \<longrightarrow>
            traffic (trace c1) = traffic (trace c) @
              (if a = (Stats, Step) \<and> map_option spc (stats_t c) = Some SLog
               then [Traffic i (sentBytes (proxy c)) (receivedBytes (proxy c))]
               else [])) \<and>
         (\<forall>rc. conn_ptr rc \<noteq> conn_ptr lconn \<longrightarrow>
            map_option stats_t
              (run [(Main, DialResult (Inr rc)), (Main, Step), (Main, Step), (Main, Step),
                    (Main, Step), (Stats, Step)] (initial (session u i lconn laddr raddr addr))) =
              Some (Some \<lparr>ticker = Some 30, prevSent = 0, prevReceived = 0, spc = SSelect\<rparr>))"
proof -
  note r = session_run [OF assms]
  from r(1) have w: "shape_ok c" by (simp add: inv_def)
  have one: "(case stats_t c of
            None \<Rightarrow>
              (mpc c = MGoStats \<longrightarrow>
                 step (Main, Step) c =
                   Some (c\<lparr>stats_t := Some \<lparr>ticker = None, prevSent = 0, prevReceived = 0,
                                              spc = SStart\<rparr>, mpc := MWait\<rparr>))
          | Some t \<Rightarrow>
              (case spc t of
                 SStart \<Rightarrow>
                   step (Stats, Step) c =
                     Some (c\<lparr>stats_t := Some (t\<lparr>ticker := Some 30, prevSent := 0,
                                                 prevReceived := 0, spc := SSelect\<rparr>)\<rparr>)
               | SSelect \<Rightarrow>
                   ticker t = Some 30 \<and>
                   step (Stats, Tick) c = Some (c\<lparr>stats_t := Some (t\<lparr>spc := SCompare\<rparr>)\<rparr>) \<and>
                   step (Stats, Step) c = None \<and>
                   (mpc c = MSendDone \<longrightarrow>
                      step (Main, Step) c =
                        Some ((emit [DoneSignal] c)
                               \<lparr>stats_t := Some (t\<lparr>spc := SStop\<rparr>), mpc := MLogClosed\<rparr>)) \<and>
                   (if prevSent t \<noteq> sentBytes (proxy c) \<or> prevReceived t \<noteq> receivedBytes (proxy c)
                    then run [(Stats, Tick), (Stats, Step), (Stats, Step), (Stats, Step)] c =
                           Some ((emit [Logged (Traffic i (sentBytes (proxy c))
                                                  (receivedBytes (proxy c)))] c)
                                  \<lparr>stats_t := Some (t\<lparr>prevSent := sentBytes (proxy c),
                                                        prevReceived := receivedBytes (proxy c)\<rparr>)\<rparr>)
                    else run [(Stats, Tick), (Stats, Step)] c = Some c)
               | SCompare \<Rightarrow>
                   step (Stats, Step) c =
                     Some (c\<lparr>stats_t := Some (t\<lparr>spc :=
                              (if prevSent t \<noteq> sentBytes (proxy c) \<or>
                                  prevReceived t \<noteq> receivedBytes (proxy c)
                               then SLog else SSelect)\<rparr>)\<rparr>)
               | SLog \<Rightarrow>
                   step (Stats, Step) c =
                     Some ((emit [Logged (Traffic i (sentBytes (proxy c))
                                            (receivedBytes (proxy c)))] c)
                            \<lparr>stats_t := Some (t\<lparr>spc := SUpdate\<rparr>)\<rparr>)
               | SUpdate \<Rightarrow>
                   step (Stats, Step) c =
                     Some (c\<lparr>stats_t := Some (t\<lparr>prevSent := sentBytes (proxy c),
                                                 prevReceived := receivedBytes (proxy c),
                                                 spc := SSelect\<rparr>)\<rparr>)
               | SStop \<Rightarrow>
                   step (Stats, Step) c =
                     Some (c\<lparr>stats_t := Some (t\<lparr>ticker := None, spc := SReturn\<rparr>)\<rparr>)
               | SReturn \<Rightarrow> ticker t = None \<and> (\<forall>r. step (Stats, r) c = None)))"
  proof (cases "stats_t c")
    case None
    then show ?thesis by (simp add: new_stats_def)
  next
    case (Some t)
    note tk = shape_ticker [OF w Some]
    have same: "c\<lparr>stats_t := Some t\<rparr> = c"
      using Some by (rule config_same_stats)
    show ?thesis
    proof (cases "spc t")
      case SStart
      with Some show ?thesis by simp
    next
      case SSelect
      have t_same: "t\<lparr>spc := SSelect\<rparr> = t"
        using SSelect by (cases t) auto
      from Some SSelect tk r(2) same t_same show ?thesis
        by (auto simp: Let_def emit_def)
    next
      case SCompare
      with Some show ?thesis by simp
    next
      case SLog
      with Some r(2) show ?thesis by (simp add: Let_def)
    next
      case SUpdate
      with Some show ?thesis by simp
    next
      case SStop
      with Some show ?thesis by simp
    next
      case SReturn
      have "step (Stats, x) c = None" for x
        using Some SReturn by (cases x) simp_all
      with Some SReturn tk show ?thesis by simp
    qed
  qed
  have two: "traffic (trace c1) = traffic (trace c) @
              (if a = (Stats, Step) \<and> map_option spc (stats_t c) = Some SLog
               then [Traffic i (sentBytes (proxy c)) (receivedBytes (proxy c))]
               else [])" if "step a c = Some c1" for a c1
    using traffic_step [OF that] r(2) by simp
  have three: "map_option stats_t
              (run [(Main, DialResult (Inr rc)), (Main, Step), (Main, Step), (Main, Step),
                    (Main, Step), (Stats, Step)] (initial (session u i lconn laddr raddr addr))) =
              Some (Some \<lparr>ticker = Some 30, prevSent = 0, prevReceived = 0, spc = SSelect\<rparr>)"
    if "conn_ptr rc \<noteq> conn_ptr lconn" for rc
    using that by (simp add: initial_def Let_def emit_def new_pipe_def new_stats_def)
  from one two three show ?thesis
    by (simp del: run.simps step.simps)
qed

text \<open>The dial has succeeded and the two pipes are launched.\<close>

definition launching :: "action list" where
  "launching = [(Main, DialResult (Inr server)), (Main, Step), (Main, Step), (Main, Step)]"

theorem reporter_steps_witness:
  "(case run launching (initial demo_tls) of
      None \<Rightarrow> False
    | Some c \<Rightarrow>
        stats_t c = None \<and>
        (case step (Main, Step) c of
           None \<Rightarrow> False
         | Some c1 \<Rightarrow>
             map_option spc (stats_t c1) = Some SStart \<and>
             (case step (Stats, Step) c1 of
                None \<Rightarrow> False
              | Some c2 \<Rightarrow>
                  stats_t c2 = Some \<lparr>ticker = Some 30, prevSent = 0, prevReceived = 0,
                                      spc = SSelect\<rparr>))) \<and>
   (case run relayed3 (initial demo) of
      None \<Rightarrow> False
    | Some c \<Rightarrow>
        (case run [(Stats, Tick), (Stats, Step), (Stats, Step), (Stats, Step)] c of
           None \<Rightarrow> False
         | Some c1 \<Rightarrow> traffic (trace c1) = [Traffic 1 3 0] \<and>
                      run [(Stats, Tick), (Stats, Step)] c1 = Some c1)) \<and>
   (case run stopping (initial demo) of
      None \<Rightarrow> False
    | Some c \<Rightarrow>
        (case step (Main, Step) c of
           None \<Rightarrow> False
         | Some c1 \<Rightarrow>
             (case step (Stats, Step) c1 of
                None \<Rightarrow> False
              | Some c2 \<Rightarrow> map_option ticker (stats_t c2) = Some None \<and>
                           map_option spc (stats_t c2) = Some SReturn)))"
proof -
  note tls = reporter_steps [of _ True 2 client "TCPAddr ''0.0.0.0:6360''"
      "TCPAddr ''198.51.100.1:636''" "''ldap.example.test:636''"]
  note inst = reporter_steps [of _ False 1 client "TCPAddr ''0.0.0.0:6360''"
      "TCPAddr ''198.51.100.1:636''" "[]"]
  define a where "a = the (run launching (initial demo_tls))"
  have a: "run launching (initial demo_tls) = Some a"
    unfolding a_def by (simp add: run_simps more_runs launching_def)
  have fa: "stats_t a = None" "mpc a = MGoStats"
    unfolding a_def by (simp_all add: run_simps more_runs launching_def)
  define a1 where "a1 = a\<lparr>stats_t := Some \<lparr>ticker = None, prevSent = 0, prevReceived = 0,
      spc = SStart\<rparr>, mpc := MWait\<rparr>"
  from tls [of launching a] a fa
  have s1: "step (Main, Step) a = Some a1"
    unfolding a1_def by (simp add: demo_tls_def del: run.simps step.simps)
  have a1: "run (launching @ [(Main, Step)]) (initial demo_tls) = Some a1"
    using a s1 by (simp add: run_append del: step.simps)
  have fa1: "stats_t a1 = Some \<lparr>ticker = None, prevSent = 0, prevReceived = 0, spc = SStart\<rparr>"
    unfolding a1_def by simp
  from tls [of "launching @ [(Main, Step)]" a1] a1 fa1
  have s2: "step (Stats, Step) a1 =
      Some (a1\<lparr>stats_t := Some \<lparr>ticker = Some 30, prevSent = 0, prevReceived = 0,
                                  spc = SSelect\<rparr>\<rparr>)"
    by (simp add: demo_tls_def del: run.simps step.simps)
  define c where "c = the (run relayed3 (initial demo))"
  define t where "t = the (stats_t c)"
  have c: "run relayed3 (initial demo) = Some c"
    unfolding c_def by (simp add: run_simps)
  have t: "stats_t c = Some t" "spc t = SSelect" "prevSent t = 0" "sentBytes (proxy c) = 3"
    "receivedBytes (proxy c) = 0" "traffic (trace c) = []"
    unfolding t_def c_def by (simp_all add: run_simps)
  define c1 where "c1 = (emit [Logged (Traffic 1 (sentBytes (proxy c)) (receivedBytes (proxy c)))] c)
                \<lparr>stats_t := Some (t\<lparr>prevSent := sentBytes (proxy c),
                                      prevReceived := receivedBytes (proxy c)\<rparr>)\<rparr>"
  from inst [of relayed3 c] c t
  have one: "run [(Stats, Tick), (Stats, Step), (Stats, Step), (Stats, Step)] c = Some c1"
    unfolding c1_def by (simp add: demo_def del: run.simps step.simps)
  have c1: "run (relayed3 @ [(Stats, Tick), (Stats, Step), (Stats, Step), (Stats, Step)])
              (initial demo) = Some c1"
    using c one by (simp add: run_append del: run.simps)
  have t1: "stats_t c1 = Some (t\<lparr>prevSent := sentBytes (proxy c),
      prevReceived := receivedBytes (proxy c)\<rparr>)" "sentBytes (proxy c1) = sentBytes (proxy c)"
    "receivedBytes (proxy c1) = receivedBytes (proxy c)"
    "traffic (trace c1) = [Traffic 1 3 0]"
    unfolding c1_def using t by simp_all
  from inst [of "relayed3 @ [(Stats, Tick), (Stats, Step), (Stats, Step), (Stats, Step)]" c1]
    c1 t1 t
  have two: "run [(Stats, Tick), (Stats, Step)] c1 = Some c1"
    by (simp add: demo_def del: run.simps step.simps)
  define d where "d = the (run stopping (initial demo))"
  define td where "td = the (stats_t d)"
  have d: "run stopping (initial demo) = Some d"
    unfolding d_def by (simp add: run_simps more_runs)
  have td: "stats_t d = Some td" "spc td = SSelect" "mpc d = MSendDone"
    unfolding td_def d_def by (simp_all add: run_simps more_runs)
  define d1 where "d1 = (emit [DoneSignal] d)\<lparr>stats_t := Some (td\<lparr>spc := SStop\<rparr>), mpc := MLogClosed\<rparr>"
  from inst [of stopping d] d td
  have three: "step (Main, Step) d = Some d1"
    unfolding d1_def by (simp add: demo_def del: run.simps step.simps)
  have d1: "run (stopping @ [(Main, Step)]) (initial demo) = Some d1"
    using d three by (simp add: run_append del: step.simps)
  have td1: "stats_t d1 = Some (td\<lparr>spc := SStop\<rparr>)"
    unfolding d1_def by simp
  from inst [of "stopping @ [(Main, Step)]" d1] d1 td1
  have four: "step (Stats, Step) d1 =
      Some (d1\<lparr>stats_t := Some (td\<lparr>ticker := None, spc := SReturn\<rparr>)\<rparr>)"
    by (simp add: demo_def del: run.simps step.simps)
  from a fa s1 fa1 s2 c one two t1 d three four show ?thesis
    by (simp add: a1_def del: run.simps step.simps)
qed

subsection \<open>The copy buffer\<close>

lemma sizes_okD:
  assumes "sizes_ok tr"
  shows "WrittenTo k out m eo \<in> set tr \<Longrightarrow> length out \<le> 65535 \<and> m \<le> length out"
    and "ReadFrom k chunk eo \<in> set tr \<Longrightarrow> length chunk \<le> 65535"
  using assms by (induction tr rule: sizes_ok.induct) auto

lemma shape_buffer:
  assumes "shape_ok c" "pipe_of d c = Some t" "ppc t \<noteq> PStart"
  shows "length (buff t) = 65535"
  using assms
  by (cases d; cases "remoteConn (proxy c)") (auto simp: shape_ok_def task_ok_def)

text \<open>
  C7. Every pipe makes its copy buffer in its first step, with exactly 0xFFFF = 65535
  bytes; from then on the buffer keeps that length, so a read returns at most 65535
  bytes (65535 can be returned, 65536 cannot) and every write is handed at most 65535
  bytes.
\<close>

theorem copy_buffer_is_65535_bytes:
  assumes "run sched (initial (session u i lconn laddr raddr addr)) = Some c"
    and "pipe_of d c = Some t"
  shows "(if ppc t = PStart
          then step (d, Step) c =
                 Some (set_pipe d (t\<lparr>isLocal := (conn_ptr (src t) = conn_ptr lconn),
                                       buff := replicate 65535 0, ppc := PRead\<rparr>) c)
          else length (buff t) = 65535 \<and> length (buff t) \<noteq> 65536) \<and>
         (ppc t = PRead \<longrightarrow>
            (\<forall>chunk eo. (step (d, ReadResult chunk eo) c \<noteq> None) = (length chunk \<le> 65535))) \<and>
         (\<forall>k out m eo. WrittenTo k out m eo \<in> set (trace c) \<longrightarrow>
            length out \<le> 65535 \<and> m \<le> 65535) \<and>
         (\<forall>k chunk eo. ReadFrom k chunk eo \<in> set (trace c) \<longrightarrow> length chunk \<le> 65535)"
proof -
  note r = session_run [OF assms(1)]
  from r(1) have w: "shape_ok c" and z: "sizes_ok (trace c)"
    by (simp_all add: inv_def)
  have d: "d = PipeLR \<or> d = PipeRL"
    using assms(2) by (cases d) auto
  have start: "ppc t = PStart \<Longrightarrow> step (d, Step) c =
      Some (set_pipe d (t\<lparr>isLocal := (conn_ptr (src t) = conn_ptr lconn),
                            buff := replicate 65535 0, ppc := PRead\<rparr>) c)"
    using d assms(2) r(5) by auto
  have len: "ppc t \<noteq> PStart \<Longrightarrow> length (buff t) = 65535"
    using shape_buffer [OF w assms(2)] .
  have rd: "ppc t = PRead \<Longrightarrow>
      (step (d, ReadResult chunk eo) c \<noteq> None) = (length chunk \<le> 65535)" for chunk eo
    using d assms(2) len by (cases eo) (auto simp: Let_def split: if_splits)
  from start len rd sizes_okD [OF z] show ?thesis
    by (auto simp del: step.simps) fastforce+
qed

theorem copy_buffer_is_65535_bytes_witness:
  "(case run relayed3 (initial demo) of
      None \<Rightarrow> False
    | Some c \<Rightarrow>
        (case pipeLR c of
           None \<Rightarrow> False
         | Some t \<Rightarrow> ppc t = PRead \<and> length (buff t) = 65535 \<and>
                     step (PipeLR, ReadResult (replicate 65536 0) None) c = None) \<and>
        WrittenTo server [1, 2, 3] 3 None \<in> set (trace c))"
proof -
  obtain c t where c: "run relayed3 (initial demo) = Some c" and t: "pipeLR c = Some t"
    and pc: "ppc t = PRead" and tr: "WrittenTo server [1, 2, 3] 3 None \<in> set (trace c)"
    by (simp add: run_simps)
  from copy_buffer_is_65535_bytes [of relayed3 False 1 client "TCPAddr ''0.0.0.0:6360''"
      "TCPAddr ''198.51.100.1:636''" "[]" c PipeLR t] c t pc
  have "length (buff t) = 65535"
    and "(step (PipeLR, ReadResult (replicate 65536 0) None) c \<noteq> None)
           = (length (replicate 65536 (0::byte)) \<le> 65535)"
    by (simp_all add: demo_def del: step.simps)
  with c t pc tr show ?thesis by simp
qed

subsection \<open>The deferred closes\<close>

lemma teardown_deferred:
  assumes "teardown_ok c" "shape_ok c"
  shows "mpc c = MLogFailed e \<Longrightarrow> remoteConn (proxy c) = None \<and> deferred c = [localConn (proxy c)]"
    and "mpc c = MLogClosed \<Longrightarrow>
           \<exists>rconn. remoteConn (proxy c) = Some rconn \<and> deferred c = [rconn, localConn (proxy c)]"
    and "mpc c = MReturn \<Longrightarrow> deferred c \<noteq> []"
    and "mpc c = MExit \<Longrightarrow> deferred c = []"
    and "stage (mpc c) < 9 \<Longrightarrow> closes (trace c) = []"
  using assms
  by (cases "remoteConn (proxy c)"; auto simp: teardown_ok_def shape_ok_def)+

text \<open>
  C8. \<^verbatim>\<open>Start\<close> dials once. The closes done so far, followed by the closes still deferred,
  are, once the dial has returned: the local connection alone when the dial failed, and
  the remote connection followed by the local one when it succeeded; the remote connection
  is set exactly when the dial succeeded, so nothing is ever closed that was not
  established, and each connection is closed once. No close happens before \<^verbatim>\<open>Start\<close>
  returns. After the failed dial \<^verbatim>\<open>Start\<close> logs and closes the local connection; after
  the termination it logs and closes the remote and then the local connection. Whatever a
  close returns, the step is taken and the teardown goes on: an error is logged and nothing
  else. When \<^verbatim>\<open>Start\<close> has ended, no close is left.
\<close>

theorem closes_follow_the_dial:
  assumes "run sched (initial (session u i lconn laddr raddr addr)) = Some c"
  shows "closes (trace c) @ deferred c =
           (if mpc c = MStart then []
            else case remoteConn (proxy c) of None \<Rightarrow> [lconn] | Some rconn \<Rightarrow> [rconn, lconn]) \<and>
         (remoteConn (proxy c) = None) = (None \<notin> set (dials (trace c))) \<and>
         length (dials (trace c)) = (if mpc c = MStart then 0 else 1) \<and>
         (case remoteConn (proxy c) of None \<Rightarrow> True | Some rconn \<Rightarrow> conn_ptr rconn \<noteq> conn_ptr lconn) \<and>
         (case mpc c of
            MLogFailed e \<Rightarrow>
              remoteConn (proxy c) = None \<and> closes (trace c) = [] \<and>
              (\<forall>eo. run [(Main, Step), (Main, CloseResult eo)] c =
                 Some ((emit ([Logged (RemoteConnectionFailed i e), ClosedConn lconn eo] @
                              (case eo of None \<Rightarrow> [] | Some e1 \<Rightarrow> [Logged (ErrorWhileClosing e1)])) c)
                        \<lparr>deferred := [], mpc := MExit\<rparr>))
          | MLogClosed \<Rightarrow>
              closes (trace c) = [] \<and>
              (case remoteConn (proxy c) of
                 None \<Rightarrow> False
               | Some rconn \<Rightarrow>
                   (\<forall>eo1 eo2.
                      run [(Main, Step), (Main, CloseResult eo1), (Main, CloseResult eo2)] c =
                        Some ((emit ([Logged (Closed i (sentBytes (proxy c)) (receivedBytes (proxy c))),
                                      ClosedConn rconn eo1] @
                                     (case eo1 of None \<Rightarrow> []
                                      | Some e1 \<Rightarrow> [Logged (ErrorWhileClosing e1)]) @
                                     [ClosedConn lconn eo2] @
                                     (case eo2 of None \<Rightarrow> []
                                      | Some e2 \<Rightarrow> [Logged (ErrorWhileClosing e2)])) c)
                               \<lparr>deferred := [], mpc := MExit\<rparr>)))
          | MReturn \<Rightarrow>
              deferred c \<noteq> [] \<and>
              (\<forall>eo. step (Main, CloseResult eo) c =
                 Some ((emit (ClosedConn (hd (deferred c)) eo #
                              (case eo of None \<Rightarrow> [] | Some e1 \<Rightarrow> [Logged (ErrorWhileClosing e1)])) c)
                        \<lparr>deferred := tl (deferred c),
                          mpc := (if tl (deferred c) = [] then MExit else MReturn)\<rparr>))
          | MExit \<Rightarrow> deferred c = [] \<and> (\<forall>r. step (Main, r) c = None)
          | _ \<Rightarrow> closes (trace c) = [])"
proof -
  note r = session_run [OF assms]
  from r(1) have w: "shape_ok c" and t: "teardown_ok c"
    by (simp_all add: inv_def)
  note td = teardown_deferred [OF t w]
  from t r(5) have one: "closes (trace c) @ deferred c =
           (if mpc c = MStart then []
            else case remoteConn (proxy c) of None \<Rightarrow> [lconn] | Some rconn \<Rightarrow> [rconn, lconn])"
    by (cases "remoteConn (proxy c)") (auto simp: teardown_ok_def)
  from t have two: "(remoteConn (proxy c) = None) = (None \<notin> set (dials (trace c)))"
    "length (dials (trace c)) = (if mpc c = MStart then 0 else 1)"
    by (simp_all add: teardown_ok_def)
  from w r(5) have three: "(case remoteConn (proxy c) of None \<Rightarrow> True
      | Some rconn \<Rightarrow> conn_ptr rconn \<noteq> conn_ptr lconn)"
    by (cases "remoteConn (proxy c)") (auto simp: shape_ok_def)
  have four: "(case mpc c of
            MLogFailed e \<Rightarrow>
              remoteConn (proxy c) = None \<and> closes (trace c) = [] \<and>
              (\<forall>eo. run [(Main, Step), (Main, CloseResult eo)] c =
                 Some ((emit ([Logged (RemoteConnectionFailed i e), ClosedConn lconn eo] @
                              (case eo of None \<Rightarrow> [] | Some e1 \<Rightarrow> [Logged (ErrorWhileClosing e1)])) c)
                        \<lparr>deferred := [], mpc := MExit\<rparr>))
          | MLogClosed \<Rightarrow>
              closes (trace c) = [] \<and>
              (case remoteConn (proxy c) of
                 None \<Rightarrow> False
               | Some rconn \<Rightarrow>
                   (\<forall>eo1 eo2.
                      run [(Main, Step), (Main, CloseResult eo1), (Main, CloseResult eo2)] c =
                        Some ((emit ([Logged (Closed i (sentBytes (proxy c)) (receivedBytes (proxy c))),
                                      ClosedConn rconn eo1] @
                                     (case eo1 of None \<Rightarrow> []
                                      | Some e1 \<Rightarrow> [Logged (ErrorWhileClosing e1)]) @
                                     [ClosedConn lconn eo2] @
                                     (case eo2 of None \<Rightarrow> []
                                      | Some e2 \<Rightarrow> [Logged (ErrorWhileClosing e2)])) c)
                               \<lparr>deferred := [], mpc := MExit\<rparr>)))
          | MReturn \<Rightarrow>
              deferred c \<noteq> [] \<and>
              (\<forall>eo. step (Main, CloseResult eo) c =
                 Some ((emit (ClosedConn (hd (deferred c)) eo #
                              (case eo of None \<Rightarrow> [] | Some e1 \<Rightarrow> [Logged (ErrorWhileClosing e1)])) c)
                        \<lparr>deferred := tl (deferred c),
                          mpc := (if tl (deferred c) = [] then MExit else MReturn)\<rparr>))
          | MExit \<Rightarrow> deferred c = [] \<and> (\<forall>r. step (Main, r) c = None)
          | _ \<Rightarrow> closes (trace c) = [])"
  proof (cases "mpc c")
    case (MLogFailed e)
    from td(1) [OF MLogFailed] td(5) MLogFailed r(2,5) show ?thesis
      by (auto simp: emit_def Let_def after_defer_def close_def split: option.splits)
  next
    case MLogClosed
    from td(2) [OF MLogClosed] td(5) MLogClosed r(2,5) show ?thesis
      by (auto simp: emit_def Let_def after_defer_def close_def split: option.splits)
  next
    case MReturn
    from td(3) [OF MReturn] MReturn show ?thesis
      by (cases "deferred c") (auto simp: emit_def Let_def after_defer_def close_def split: option.splits)
  next
    case MExit
    have "step (Main, x) c = None" for x
      using MExit by (cases x) simp_all
    with td(4) [OF MExit] MExit show ?thesis by simp
  qed (use td(5) in simp_all)
  from one two three four show ?thesis
    by (simp del: run.simps step.simps)
qed

text \<open>
  The session has terminated and the reporter has stopped: \<^verbatim>\<open>Start\<close> is about to log the
  closing line.
\<close>

definition torn_down :: "action list" where
  "torn_down = stopping @ [(Main, Step), (Stats, Step)]"

theorem closes_follow_the_dial_witness:
  "(case run torn_down (initial demo) of
      None \<Rightarrow> False
    | Some c \<Rightarrow>
        mpc c = MLogClosed \<and> closes (trace c) = [] \<and> deferred c = [server, client] \<and>
        dials (trace c) = [None] \<and>
        (case run [(Main, Step), (Main, CloseResult (Some (Failure ''close: input/output error''))),
                   (Main, CloseResult None)] c of
           None \<Rightarrow> False
         | Some c1 \<Rightarrow>
             closes (trace c1) = [server, client] \<and> deferred c1 = [] \<and> mpc c1 = MExit \<and>
             logged (trace c1) =
               logged (trace c) @ [Closed 1 3 0,
                                   ErrorWhileClosing (Failure ''close: input/output error'')])) \<and>
   (case run [(Main, DialResult (Inl (Failure ''connect: connection refused'')))]
          (initial demo_tls) of
      None \<Rightarrow> False
    | Some c \<Rightarrow>
        remoteConn (proxy c) = None \<and> dials (trace c) = [Some (Failure ''connect: connection refused'')] \<and>
        (case run [(Main, Step), (Main, CloseResult None)] c of
           None \<Rightarrow> False
         | Some c1 \<Rightarrow> closes (trace c1) = [client] \<and> deferred c1 = [] \<and> mpc c1 = MExit))"
proof -
  define c where "c = the (run torn_down (initial demo))"
  have c: "run torn_down (initial demo) = Some c"
    unfolding c_def by (simp add: run_simps more_runs torn_down_def read_failed_def)
  have f: "mpc c = MLogClosed" "remoteConn (proxy c) = Some server" "dials (trace c) = [None]"
    "sentBytes (proxy c) = 3" "receivedBytes (proxy c) = 0"
    unfolding c_def by (simp_all add: run_simps more_runs torn_down_def read_failed_def)
  from c have c0: "run torn_down (initial (session False 1 client (TCPAddr ''0.0.0.0:6360'')
      (TCPAddr ''198.51.100.1:636'') [])) = Some c"
    by (simp only: demo_def)
  note one = closes_follow_the_dial [OF c0]
  from one f have g: "closes (trace c) = []" "deferred c = [server, client]"
    by (auto simp del: run.simps step.simps)
  from one f
  have r: "run [(Main, Step), (Main, CloseResult (Some (Failure ''close: input/output error''))),
                   (Main, CloseResult None)] c =
      Some ((emit [Logged (Closed 1 3 0), ClosedConn server (Some (Failure ''close: input/output error'')),
                   Logged (ErrorWhileClosing (Failure ''close: input/output error'')),
                   ClosedConn client None] c)\<lparr>deferred := [], mpc := MExit\<rparr>)"
    by (simp del: run.simps step.simps)
  define d where "d = the (run [(Main, DialResult (Inl (Failure ''connect: connection refused'')))]
          (initial demo_tls))"
  have d: "run [(Main, DialResult (Inl (Failure ''connect: connection refused'')))]
          (initial demo_tls) = Some d"
    unfolding d_def by (simp add: run_simps more_runs)
  have h: "mpc d = MLogFailed (Failure ''connect: connection refused'')"
    "dials (trace d) = [Some (Failure ''connect: connection refused'')]"
    unfolding d_def by (simp_all add: run_simps more_runs)
  from d have d0: "run [(Main, DialResult (Inl (Failure ''connect: connection refused'')))]
      (initial (session True 2 client (TCPAddr ''0.0.0.0:6360'')
      (TCPAddr ''198.51.100.1:636'') ''ldap.example.test:636'')) = Some d"
    by (simp only: demo_tls_def)
  note two = closes_follow_the_dial [OF d0]
  from two h have k: "remoteConn (proxy d) = None" "closes (trace d) = []"
    and q: "run [(Main, Step), (Main, CloseResult None)] d =
      Some ((emit [Logged (RemoteConnectionFailed 2 (Failure ''connect: connection refused'')),
                   ClosedConn client None] d)\<lparr>deferred := [], mpc := MExit\<rparr>)"
    by (simp_all del: run.simps step.simps)
  from c f g r d h k q show ?thesis
    by (simp del: run.simps step.simps)
qed

subsection \<open>A failed write\<close>

text \<open>A pipe that has left its loop stays out of it, and its counter stays as it is.\<close>

definition left_loop :: "task \<Rightarrow> uint64 \<Rightarrow> config \<Rightarrow> bool" where
  "left_loop d v c =
     (shape_ok c \<and>
      (if d = PipeLR then \<not> copying (pipeLR c) \<and> sentBytes (proxy c) = v
       else \<not> copying (pipeRL c) \<and> receivedBytes (proxy c) = v))"

lemma left_loop_step:
  assumes "left_loop d v c" "step a c = Some c1"
  shows "left_loop d v c1"
proof -
  from assms(1) have w: "shape_ok c" by (simp add: left_loop_def)
  from assms(2) w assms(1) have "(if d = PipeLR then \<not> copying (pipeLR c1) \<and> sentBytes (proxy c1) = v
       else \<not> copying (pipeRL c1) \<and> receivedBytes (proxy c1) = v)"
    by (cases rule: stepE; cases "remoteConn (proxy c)"; cases "pipeLR c"; cases "pipeRL c")
       (auto simp: left_loop_def shape_ok_def task_ok_def split: if_splits)
  with shape_step [OF assms(2) w] show ?thesis by (simp add: left_loop_def)
qed

text \<open>
  C9. When a write of a pipe returns an error, whatever count comes with it, the step
  leaves the whole struct as it was, and in every continuation of the run the counter of
  that pipe's direction keeps the value it had before the write.
\<close>

theorem failed_write_is_not_counted:
  assumes "run sched (initial (session u i lconn laddr raddr addr)) = Some c"
    and "step (d, WriteResult m (Some e)) c = Some c1"
    and "run rest c1 = Some c2"
  shows "proxy c1 = proxy c \<and>
         (if d = PipeLR then sentBytes (proxy c2) = sentBytes (proxy c)
          else d = PipeRL \<and> receivedBytes (proxy c2) = receivedBytes (proxy c))"
proof -
  note r = session_run [OF assms(1)]
  from r(1) have w: "shape_ok c" by (simp add: inv_def)
  from assms(2) have p: "proxy c1 = proxy c" and d: "d = PipeLR \<or> d = PipeRL"
    and l: "d = PipeLR \<Longrightarrow> \<not> copying (pipeLR c1)"
      "d = PipeRL \<Longrightarrow> \<not> copying (pipeRL c1)"
    by (cases rule: stepE; auto)+
  let ?v = "if d = PipeLR then sentBytes (proxy c) else receivedBytes (proxy c)"
  have "left_loop d ?v c1"
    using shape_step [OF assms(2) w] p d l by (auto simp: left_loop_def)
  from run_invariant [of "left_loop d ?v", OF left_loop_step this assms(3)]
  have "left_loop d ?v c2" .
  with p d show ?thesis by (auto simp: left_loop_def)
qed

text \<open>
  The remote peer has closed; the write of the three bytes to it takes two of them and
  fails. The run goes on until the session is torn down.
\<close>

definition write_fails :: "action list" where
  "write_fails = opened @ [(PipeLR, ReadResult [1, 2, 3] None)]"

definition after_failure :: "action list" where
  "after_failure = [(PipeLR, Step), (PipeLR, Step), (PipeLR, Step), (PipeLR, Step),
                    (Main, Step), (Main, Step), (Stats, Step)]"

theorem failed_write_is_not_counted_witness:
  "(case run write_fails (initial demo) of
      None \<Rightarrow> False
    | Some c \<Rightarrow>
        (case step (PipeLR, WriteResult 2 (Some (Failure ''broken pipe''))) c of
           None \<Rightarrow> False
         | Some c1 \<Rightarrow>
             (case run after_failure c1 of
                None \<Rightarrow> False
              | Some c2 \<Rightarrow>
                  accepted server (trace c2) = [1, 2] \<and> sentBytes (proxy c2) = 0 \<and>
                  sentBytes (proxy c) = 0 \<and> proxy c1 = proxy c)))"
proof -
  define c where "c = the (run write_fails (initial demo))"
  define c1 where "c1 = the (step (PipeLR, WriteResult 2 (Some (Failure ''broken pipe''))) c)"
  define c2 where "c2 = the (run after_failure c1)"
  have c: "run write_fails (initial demo) = Some c"
    unfolding c_def by (simp add: run_simps write_fails_def)
  have c1: "step (PipeLR, WriteResult 2 (Some (Failure ''broken pipe''))) c = Some c1"
    unfolding c1_def c_def by (simp add: run_simps write_fails_def)
  have c2: "run after_failure c1 = Some c2"
    unfolding c2_def c1_def c_def by (simp add: run_simps write_fails_def after_failure_def)
  have acc: "accepted server (trace c2) = [1, 2]"
    unfolding c2_def c1_def c_def by (simp add: run_simps write_fails_def after_failure_def)
  have s0: "sentBytes (proxy c) = 0"
    unfolding c_def by (simp add: run_simps write_fails_def)
  from failed_write_is_not_counted [of write_fails False 1 client "TCPAddr ''0.0.0.0:6360''"
      "TCPAddr ''198.51.100.1:636''" "[]" c PipeLR 2 "Failure ''broken pipe''" c1
      after_failure c2] c c1 c2
  have "proxy c1 = proxy c" "sentBytes (proxy c2) = sentBytes (proxy c)"
    by (simp_all only: demo_def if_True)
  with c c1 c2 acc s0 show ?thesis by (simp del: run.simps step.simps)
qed

subsection \<open>The opened line and the addresses\<close>

text \<open>The lines of the log that say a session is opened.\<close>

fun opened_lines :: "event list \<Rightarrow> logline list" where
  "opened_lines [] = []"
| "opened_lines (Logged (Opened i l r) # es) = Opened i l r # opened_lines es"
| "opened_lines (e # es) = opened_lines es"

lemma opened_lines_append [simp]: "opened_lines (xs @ ys) = opened_lines xs @ opened_lines ys"
  by (induction xs rule: opened_lines.induct) auto

lemma opened_lines_close [simp]: "opened_lines (close k eo) = []"
  by (auto simp: close_def split: option.splits)

definition opened_ok :: "config \<Rightarrow> bool" where
  "opened_ok c =
     (opened_lines (trace c) =
        (if remoteConn (proxy c) \<noteq> None \<and> 3 \<le> stage (mpc c)
         then [Opened (ident (proxy c)) (addr_String (localAddr (proxy c)))
                 (addr_String (remoteAddr (proxy c)))]
         else []))"

lemma opened_step:
  assumes "step a c = Some c1" "shape_ok c" "opened_ok c"
  shows "opened_ok c1"
  using assms
  by (cases rule: stepE; cases "remoteConn (proxy c)")
     (auto simp: opened_ok_def shape_ok_def split: if_splits)

lemma opened_run:
  assumes "run sched (initial (session u i lconn laddr raddr addr)) = Some c"
  shows "opened_ok c"
proof -
  have "shape_ok c0 \<and> opened_ok c0 \<Longrightarrow> step a c0 = Some c1 \<Longrightarrow> shape_ok c1 \<and> opened_ok c1"
    for c0 a c1
    using shape_step opened_step by blast
  moreover have "shape_ok (initial (session u i lconn laddr raddr addr)) \<and>
      opened_ok (initial (session u i lconn laddr raddr addr))"
    by (simp add: shape_initial) (simp add: opened_ok_def initial_def)
  ultimately have "shape_ok c \<and> opened_ok c"
    using assms by (rule run_invariant [of "\<lambda>c. shape_ok c \<and> opened_ok c"])
  then show ?thesis ..
qed

text \<open>
  The same connection object with the address of its peer blanked, and a configuration,
  a response and a schedule with every connection so blanked.
\<close>

definition anon :: "conn \<Rightarrow> conn" where
  "anon k = k\<lparr>RemoteAddr := TCPAddr []\<rparr>"

fun anon_event :: "event \<Rightarrow> event" where
  "anon_event (ReadFrom k chunk eo) = ReadFrom (anon k) chunk eo"
| "anon_event (WrittenTo k out m eo) = WrittenTo (anon k) out m eo"
| "anon_event (ClosedConn k eo) = ClosedConn (anon k) eo"
| "anon_event e = e"

definition anon_task :: "pipe_task \<Rightarrow> pipe_task" where
  "anon_task t = t\<lparr>src := anon (src t), dst := anon (dst t)\<rparr>"

definition anon_config :: "config \<Rightarrow> config" where
  "anon_config c =
     c\<lparr>proxy := (proxy c)\<lparr>localConn := anon (localConn (proxy c)),
                            remoteConn := map_option anon (remoteConn (proxy c))\<rparr>,
       deferred := map anon (deferred c),
       pipeLR := map_option anon_task (pipeLR c),
       pipeRL := map_option anon_task (pipeRL c),
       trace := map anon_event (trace c)\<rparr>"

fun anon_action :: "action \<Rightarrow> action" where
  "anon_action (d, DialResult (Inr rc)) = (d, DialResult (Inr (anon rc)))"
| "anon_action (d, r) = (d, r)"

lemma anon_close [simp]: "map anon_event (close k eo) = close (anon k) eo"
  by (auto simp: close_def split: option.splits)

lemma anon_ptr [simp]: "conn_ptr (anon k) = conn_ptr k"
  by (simp add: anon_def)

lemma logged_anon [simp]: "logged (map anon_event tr) = logged tr"
  by (induction tr rule: logged.induct) auto

lemma anon_step:
  assumes "step a c = Some c1"
  shows "step (anon_action a) (anon_config c) = Some (anon_config c1)"
  using assms
  by (cases rule: stepE)
     (auto simp: anon_config_def anon_task_def emit_def Let_def new_pipe_def new_stats_def
        remote_target_def after_defer_def)

lemma anon_run:
  assumes "run sched c = Some c1"
  shows "run (map anon_action sched) (anon_config c) = Some (anon_config c1)"
  using assms
proof (induction sched arbitrary: c)
  case Nil
  then show ?case by simp
next
  case (Cons a as)
  then obtain c2 where s: "step a c = Some c2" and r: "run as c2 = Some c1"
    by (auto split: option.splits)
  from anon_step [OF s] Cons.IH [OF r] show ?case
    by (simp del: step.simps)
qed

lemma anon_initial:
  "anon_config (initial (session u i lconn laddr raddr addr)) =
     initial (session u i (anon lconn) laddr raddr addr)"
  by (simp add: anon_config_def initial_def session_def New_def NewTLSUnwrapped_def)

lemma accept_loop_sessions:
  "GoStart g \<in> set (accept_loop u laddr raddr addr n accepts) \<Longrightarrow>
     \<exists>m k. g = session u m k laddr raddr addr"
  by (induction u laddr raddr addr n accepts rule: accept_loop.induct) auto

text \<open>
  The client resets the connection: the read on the local connection fails with the error
  of the network library, whose text names the two ends of the connection, and the pipe
  logs it.
\<close>

definition peer_reset :: "action list" where
  "peer_reset = opened @
     [(PipeLR, ReadResult []
         (Some (Failure ''read tcp 198.51.100.9:6360->192.0.2.7:50000: read: connection reset by peer''))),
      (PipeLR, Step), (PipeLR, Step)]"

text \<open>
  C10 as stated fails: the address of the client's end, 192.0.2.7:50000, is in a line of
  the log.
\<close>

theorem peer_address_in_the_log_counterexample:
  "(case run peer_reset (initial demo) of
      None \<Rightarrow> False
    | Some c \<Rightarrow>
        addr_String (RemoteAddr (localConn (proxy c))) = ''192.0.2.7:50000'' \<and>
        render (last (logged (trace c))) =
          ''[1] read failed '' @ [quote] @ ''read tcp 198.51.100.9:6360->'' @
          addr_String (RemoteAddr (localConn (proxy c))) @
          '': read: connection reset by peer'' @ [quote, newline])"
  by (simp add: run_simps peer_reset_def read_failed_def u64_def fmt_d.simps [of "Suc 0"]
        digit_char_def char_of_def bit_iff_odd quote_def newline_def)

text \<open>
  C10, as the code has it. Every session that \<^verbatim>\<open>main\<close> starts has the two addresses
  \<^verbatim>\<open>main\<close> resolved, whatever connection was accepted. After a successful dial \<^verbatim>\<open>Start\<close>
  logs the line that renders these two addresses, and it is the only such line of the
  session. No statement renders the address of the peer of a connection: the same run with
  the peer addresses of all connections blanked is a run of the session, with the same
  log. The address of the client can be in the log only within the text of an error that a
  call on a connection returned.
\<close>

theorem opened_line_shows_resolved_addresses:
  assumes "run sched (initial (session u i lconn laddr raddr addr)) = Some c"
  shows "(mpc c = MLogOpened \<longrightarrow>
            step (Main, Step) c =
              Some (emit [Logged (Opened i (addr_String laddr) (addr_String raddr))]
                     (c\<lparr>mpc := MGoPipeLR\<rparr>))) \<and>
         opened_lines (trace c) =
           (if remoteConn (proxy c) \<noteq> None \<and> 3 \<le> stage (mpc c)
            then [Opened i (addr_String laddr) (addr_String raddr)] else []) \<and>
         render (Opened i (addr_String laddr) (addr_String raddr)) =
           ''['' @ u64 i @ ''] opened '' @ addr_String laddr @ '' > '' @ addr_String raddr \<and>
         run (map anon_action sched) (initial (session u i (anon lconn) laddr raddr addr)) =
           Some (anon_config c) \<and>
         logged (trace (anon_config c)) = logged (trace c) \<and>
         (\<forall>l r accepts g. GoStart g \<in> set (main l r u (Inr laddr) (Inr raddr) None accepts) \<longrightarrow>
            localAddr g = laddr \<and> remoteAddr g = raddr \<and>
            (\<exists>m k. g = session u m k laddr raddr r))"
proof -
  note r = session_run [OF assms]
  have one: "mpc c = MLogOpened \<Longrightarrow>
            step (Main, Step) c =
              Some (emit [Logged (Opened i (addr_String laddr) (addr_String raddr))]
                     (c\<lparr>mpc := MGoPipeLR\<rparr>))"
    using r(2-4) by (simp add: Let_def)
  from opened_run [OF assms] r(2-4)
  have two: "opened_lines (trace c) =
           (if remoteConn (proxy c) \<noteq> None \<and> 3 \<le> stage (mpc c)
            then [Opened i (addr_String laddr) (addr_String raddr)] else [])"
    by (simp add: opened_ok_def)
  have three: "render (Opened i (addr_String laddr) (addr_String raddr)) =
           ''['' @ u64 i @ ''] opened '' @ addr_String laddr @ '' > '' @ addr_String raddr"
    by simp
  from anon_run [OF assms]
  have four: "run (map anon_action sched) (initial (session u i (anon lconn) laddr raddr addr)) =
           Some (anon_config c)"
    by (simp only: anon_initial)
  have five: "logged (trace (anon_config c)) = logged (trace c)"
    by (simp add: anon_config_def)
  have six: "localAddr g = laddr \<and> remoteAddr g = raddr \<and> (\<exists>m k. g = session u m k laddr raddr r)"
    if "GoStart g \<in> set (main l r u (Inr laddr) (Inr raddr) None accepts)" for l r accepts g
  proof -
    from that have "GoStart g \<in> set (accept_loop u laddr raddr r 0 accepts)"
      by (simp add: main_def)
    from accept_loop_sessions [OF this] show ?thesis
      by auto
  qed
  from one two three four five six show ?thesis
    by (simp del: run.simps step.simps render.simps)
qed

text \<open>Two clients are accepted, one from another address.\<close>

definition client2 :: conn where
  "client2 = \<lparr>conn_ptr = 3, RemoteAddr = TCPAddr ''203.0.113.5:41000''\<rparr>"

theorem opened_line_shows_resolved_addresses_witness:
  "(case run peer_reset (initial demo) of
      None \<Rightarrow> False
    | Some c \<Rightarrow>
        opened_lines (trace c) = [Opened 1 ''0.0.0.0:6360'' ''198.51.100.1:636''] \<and>
        (case run (map anon_action peer_reset)
                (initial (session False 1 (anon client) (TCPAddr ''0.0.0.0:6360'')
                           (TCPAddr ''198.51.100.1:636'') [])) of
           None \<Rightarrow> False
         | Some c1 \<Rightarrow> logged (trace c1) = logged (trace c))) \<and>
   (case run [(Main, DialResult (Inr server))] (initial demo_tls) of
      None \<Rightarrow> False
    | Some c \<Rightarrow>
        (case step (Main, Step) c of
           None \<Rightarrow> False
         | Some c1 \<Rightarrow> logged (trace c1) = [Opened 2 ''0.0.0.0:6360'' ''198.51.100.1:636''])) \<and>
   main '':6360'' ''ldap.example.test:636'' True (Inr (TCPAddr ''0.0.0.0:6360''))
        (Inr (TCPAddr ''198.51.100.1:636'')) None [Inr client, Inr client2] =
     [MainLogged (Proxying '':6360'' ''ldap.example.test:636''),
      GoStart (session True 1 client (TCPAddr ''0.0.0.0:6360'') (TCPAddr ''198.51.100.1:636'')
                 ''ldap.example.test:636''),
      GoStart (session True 2 client2 (TCPAddr ''0.0.0.0:6360'') (TCPAddr ''198.51.100.1:636'')
                 ''ldap.example.test:636'')] \<and>
   localAddr (session True 2 client2 (TCPAddr ''0.0.0.0:6360'') (TCPAddr ''198.51.100.1:636'')
                 ''ldap.example.test:636'') = TCPAddr ''0.0.0.0:6360''"
proof -
  define c where "c = the (run peer_reset (initial demo))"
  have c: "run peer_reset (initial demo) = Some c"
    unfolding c_def by (simp add: run_simps peer_reset_def)
  have f: "remoteConn (proxy c) \<noteq> None" "3 \<le> stage (mpc c)"
    unfolding c_def by (simp_all add: run_simps peer_reset_def)
  from c have c0: "run peer_reset (initial (session False 1 client (TCPAddr ''0.0.0.0:6360'')
      (TCPAddr ''198.51.100.1:636'') [])) = Some c"
    by (simp only: demo_def)
  note one = opened_line_shows_resolved_addresses [OF c0]
  from one f have o: "opened_lines (trace c) = [Opened 1 ''0.0.0.0:6360'' ''198.51.100.1:636'']"
    by (simp del: run.simps step.simps render.simps)
  from one have a: "run (map anon_action peer_reset)
                (initial (session False 1 (anon client) (TCPAddr ''0.0.0.0:6360'')
                           (TCPAddr ''198.51.100.1:636'') [])) = Some (anon_config c)"
    "logged (trace (anon_config c)) = logged (trace c)"
    by (simp_all del: run.simps step.simps render.simps)
  define d where "d = the (run [(Main, DialResult (Inr server))] (initial demo_tls))"
  have d: "run [(Main, DialResult (Inr server))] (initial demo_tls) = Some d"
    unfolding d_def by (simp add: run_simps more_runs)
  have g: "mpc d = MLogOpened" "logged (trace d) = []"
    unfolding d_def by (simp_all add: run_simps more_runs)
  from d have d0: "run [(Main, DialResult (Inr server))]
      (initial (session True 2 client (TCPAddr ''0.0.0.0:6360'')
      (TCPAddr ''198.51.100.1:636'') ''ldap.example.test:636'')) = Some d"
    by (simp only: demo_tls_def)
  from opened_line_shows_resolved_addresses [OF d0] g
  have s: "step (Main, Step) d =
      Some (emit [Logged (Opened 2 ''0.0.0.0:6360'' ''198.51.100.1:636'')] (d\<lparr>mpc := MGoPipeLR\<rparr>))"
    by (simp del: run.simps step.simps render.simps)
  have m: "main '':6360'' ''ldap.example.test:636'' True (Inr (TCPAddr ''0.0.0.0:6360''))
        (Inr (TCPAddr ''198.51.100.1:636'')) None [Inr client, Inr client2] =
     [MainLogged (Proxying '':6360'' ''ldap.example.test:636''),
      GoStart (session True 1 client (TCPAddr ''0.0.0.0:6360'') (TCPAddr ''198.51.100.1:636'')
                 ''ldap.example.test:636''),
      GoStart (session True 2 client2 (TCPAddr ''0.0.0.0:6360'') (TCPAddr ''198.51.100.1:636'')
                 ''ldap.example.test:636'')]"
    by (simp add: main_def demo_tls_def session_def New_def NewTLSUnwrapped_def)
  from c o a d g s m show ?thesis
    by (simp del: run.simps step.simps render.simps)
qed

end
